theory Spec2Isabelle
  imports Main "HOL-Library.Word"
begin

unbundle bit_operations_syntax

chapter \<open>Operational scripts of the Solr deployment\<close>

text \<open>
  The development embeds four Python scripts: the password hasher
  (\<^verbatim>\<open>scripts/hash-password.py\<close>), the health aggregator
  (\<^verbatim>\<open>scripts/health-api.py\<close>) and the two dashboard mutation scripts
  (\<^verbatim>\<open>scripts/add-query-performance-dashboard.py\<close>,
  \<^verbatim>\<open>scripts/add-grafana-templating.py\<close>).
\<close>

section \<open>Python values\<close>

text \<open>
  A Python \<^verbatim>\<open>bytes\<close> object is a list of 8-bit words. A Python \<^verbatim>\<open>str\<close> is a list
  of Unicode code points (natural numbers up to \<open>0x10FFFF\<close>); \<open>ascii\<close> turns a
  literal into such a list.
\<close>

type_synonym byte = "8 word"
type_synonym bytes = "byte list"
type_synonym str = "nat list"

definition ascii :: "string \<Rightarrow> str" where
  "ascii s = map of_char s"

text \<open>The exceptions the scripts can meet.\<close>

datatype error =
    UnicodeEncodeError
  | UnicodeDecodeError
  | ValueError
  | Binascii_Error
  | AttributeError
  | KeyError
  | TypeError
  | OverflowError

text \<open>
  Parsed JSON documents, as \<^verbatim>\<open>json.load\<close> returns them: \<^verbatim>\<open>None\<close>, booleans,
  integers, floating-point numbers, strings, lists and dictionaries (association lists
  in insertion order, \<open>map_of\<close> looks a key up). A \<^verbatim>\<open>float\<close> is an IEEE 754 double,
  kept as its 64 bits.
\<close>

datatype json =
    JNull
  | JBool bool
  | JInt int
  | JFloat "64 word"
  | JStr str
  | JArr "json list"
  | JObj "(str \<times> json) list"

text \<open>Truth value of a Python object, as \<^verbatim>\<open>if x\<close> computes it.\<close>

fun truthy :: "json \<Rightarrow> bool" where
  "truthy JNull = False"
| "truthy (JBool b) = b"
| "truthy (JInt i) = (i \<noteq> 0)"
| "truthy (JFloat f) = (f AND 0x7FFFFFFFFFFFFFFF \<noteq> 0)"
| "truthy (JStr s) = (s \<noteq> [])"
| "truthy (JArr xs) = (xs \<noteq> [])"
| "truthy (JObj kvs) = (kvs \<noteq> [])"

text \<open>
  \<^verbatim>\<open>obj.get(key, default)\<close>: only a dictionary has the method, every other value
  raises \<^verbatim>\<open>AttributeError\<close>.
\<close>

fun py_get :: "json \<Rightarrow> str \<Rightarrow> json \<Rightarrow> error + json" where
  "py_get (JObj kvs) key dflt = (case map_of kvs key of None \<Rightarrow> Inr dflt | Some v \<Rightarrow> Inr v)"
| "py_get _ key dflt = Inl AttributeError"

section \<open>Library functions used by the password hasher\<close>

subsection \<open>\<^verbatim>\<open>str.encode('utf-8')\<close>\<close>

text \<open>
  Strict UTF-8 encoding: a surrogate code point (\<open>0xD800\<close> to \<open>0xDFFF\<close>) is not
  encodable and raises \<^verbatim>\<open>UnicodeEncodeError\<close>. Numbers above \<open>0x10FFFF\<close> are not
  code points and are rejected in the same way.
\<close>

definition utf8_char :: "nat \<Rightarrow> bytes option" where
  "utf8_char cp =
     (if cp < 0x80 then Some [of_nat cp]
      else if cp < 0x800 then Some [of_nat (0xC0 + cp div 64), of_nat (0x80 + cp mod 64)]
      else if 0xD800 \<le> cp \<and> cp \<le> 0xDFFF then None
      else if cp < 0x10000 then
        Some [of_nat (0xE0 + cp div 4096), of_nat (0x80 + cp div 64 mod 64),
              of_nat (0x80 + cp mod 64)]
      else if cp < 0x110000 then
        Some [of_nat (0xF0 + cp div 262144), of_nat (0x80 + cp div 4096 mod 64),
              of_nat (0x80 + cp div 64 mod 64), of_nat (0x80 + cp mod 64)]
      else None)"

fun utf8_encode :: "str \<Rightarrow> error + bytes" where
  "utf8_encode [] = Inr []"
| "utf8_encode (cp # rest) =
     (case utf8_char cp of
        None \<Rightarrow> Inl UnicodeEncodeError
      | Some bs \<Rightarrow> (case utf8_encode rest of Inl e \<Rightarrow> Inl e | Inr more \<Rightarrow> Inr (bs @ more)))"

subsection \<open>\<^verbatim>\<open>hashlib.sha256\<close>\<close>

text \<open>SHA-256 as in FIPS 180-4, on 32-bit words.\<close>

definition sha256_k :: "32 word list" where
  "sha256_k = [
    0x428A2F98, 0x71374491, 0xB5C0FBCF, 0xE9B5DBA5, 0x3956C25B, 0x59F111F1, 0x923F82A4, 0xAB1C5ED5,
    0xD807AA98, 0x12835B01, 0x243185BE, 0x550C7DC3, 0x72BE5D74, 0x80DEB1FE, 0x9BDC06A7, 0xC19BF174,
    0xE49B69C1, 0xEFBE4786, 0x0FC19DC6, 0x240CA1CC, 0x2DE92C6F, 0x4A7484AA, 0x5CB0A9DC, 0x76F988DA,
    0x983E5152, 0xA831C66D, 0xB00327C8, 0xBF597FC7, 0xC6E00BF3, 0xD5A79147, 0x06CA6351, 0x14292967,
    0x27B70A85, 0x2E1B2138, 0x4D2C6DFC, 0x53380D13, 0x650A7354, 0x766A0ABB, 0x81C2C92E, 0x92722C85,
    0xA2BFE8A1, 0xA81A664B, 0xC24B8B70, 0xC76C51A3, 0xD192E819, 0xD6990624, 0xF40E3585, 0x106AA070,
    0x19A4C116, 0x1E376C08, 0x2748774C, 0x34B0BCB5, 0x391C0CB3, 0x4ED8AA4A, 0x5B9CCA4F, 0x682E6FF3,
    0x748F82EE, 0x78A5636F, 0x84C87814, 0x8CC70208, 0x90BEFFFA, 0xA4506CEB, 0xBEF9A3F7, 0xC67178F2]"

definition sha256_h0 :: "32 word list" where
  "sha256_h0 = [0x6A09E667, 0xBB67AE85, 0x3C6EF372, 0xA54FF53A,
                0x510E527F, 0x9B05688C, 0x1F83D9AB, 0x5BE0CD19]"

definition rotr :: "nat \<Rightarrow> 32 word \<Rightarrow> 32 word" where
  "rotr n x = drop_bit n x OR push_bit (32 - n) x"

definition Ch :: "32 word \<Rightarrow> 32 word \<Rightarrow> 32 word \<Rightarrow> 32 word" where
  "Ch x y z = (x AND y) XOR (NOT x AND z)"

definition Maj :: "32 word \<Rightarrow> 32 word \<Rightarrow> 32 word \<Rightarrow> 32 word" where
  "Maj x y z = (x AND y) XOR (x AND z) XOR (y AND z)"

definition Sigma0 :: "32 word \<Rightarrow> 32 word" where
  "Sigma0 x = rotr 2 x XOR rotr 13 x XOR rotr 22 x"

definition Sigma1 :: "32 word \<Rightarrow> 32 word" where
  "Sigma1 x = rotr 6 x XOR rotr 11 x XOR rotr 25 x"

definition sigma0 :: "32 word \<Rightarrow> 32 word" where
  "sigma0 x = rotr 7 x XOR rotr 18 x XOR drop_bit 3 x"

definition sigma1 :: "32 word \<Rightarrow> 32 word" where
  "sigma1 x = rotr 17 x XOR rotr 19 x XOR drop_bit 10 x"

text \<open>Big-endian packing of bytes into words and back.\<close>

fun be32 :: "bytes \<Rightarrow> 32 word list" where
  "be32 (a # b # c # d # rest) =
     (push_bit 24 (ucast a) OR push_bit 16 (ucast b) OR push_bit 8 (ucast c) OR ucast d) # be32 rest"
| "be32 _ = []"

definition word_bytes :: "32 word \<Rightarrow> bytes" where
  "word_bytes w = [ucast (drop_bit 24 w), ucast (drop_bit 16 w), ucast (drop_bit 8 w), ucast w]"

definition len_bytes :: "nat \<Rightarrow> bytes" where
  "len_bytes n = (let w = (of_nat n :: 64 word) in
     map (\<lambda>i. ucast (drop_bit (8 * i) w)) [7, 6, 5, 4, 3, 2, 1, 0])"

text \<open>
  Padding: the byte \<open>0x80\<close>, zero bytes up to 56 modulo 64, and the message length in
  bits as a 64-bit big-endian number.
\<close>

definition sha256_pad :: "bytes \<Rightarrow> bytes" where
  "sha256_pad m =
     m @ [0x80] @ replicate ((119 - length m mod 64) mod 64) 0 @ len_bytes (8 * length m)"

text \<open>The message schedule extends the 16 words of a block by \<open>n\<close> further words.\<close>

fun schedule :: "nat \<Rightarrow> 32 word list \<Rightarrow> 32 word list" where
  "schedule 0 w = w"
| "schedule (Suc n) w =
     (let t = length w in
      schedule n
        (w @ [sigma1 (w ! (t - 2)) + w ! (t - 7) + sigma0 (w ! (t - 15)) + w ! (t - 16)]))"

fun round256 :: "32 word list \<Rightarrow> 32 word \<times> 32 word \<Rightarrow> 32 word list" where
  "round256 [a, b, c, d, e, f, g, h] (k, w) =
     (let t1 = h + Sigma1 e + Ch e f g + k + w;
          t2 = Sigma0 a + Maj a b c
      in [t1 + t2, a, b, c, d + t1, e, f, g])"
| "round256 s _ = s"

definition compress :: "32 word list \<Rightarrow> bytes \<Rightarrow> 32 word list" where
  "compress hs block =
     map2 (+) hs (foldl round256 hs (zip sha256_k (schedule 48 (be32 block))))"

fun blocks :: "32 word list \<Rightarrow> nat \<Rightarrow> bytes \<Rightarrow> 32 word list" where
  "blocks hs 0 m = hs"
| "blocks hs (Suc n) m = blocks (compress hs (take 64 m)) n (drop 64 m)"

definition sha256 :: "bytes \<Rightarrow> bytes" where
  "sha256 m =
     (let p = sha256_pad m
      in concat (map word_bytes (blocks sha256_h0 (length p div 64) p)))"

subsection \<open>\<^verbatim>\<open>base64.b64encode\<close> and \<^verbatim>\<open>base64.b64decode\<close>\<close>

text \<open>The encoding table of \<^verbatim>\<open>binascii\<close>, indexed by a six-bit value.\<close>

definition table_b2a_base64 :: "str" where
  "table_b2a_base64 =
     ascii ''ABCDEFGHIJKLMNOPQRSTUVWXYZabcdefghijklmnopqrstuvwxyz0123456789+/''"

definition b2a_char :: "byte \<Rightarrow> nat" where
  "b2a_char v = table_b2a_base64 ! unat v"

text \<open>
  Standard base64 with \<open>=\<close> padding: three bytes give four characters; a final group
  of one or two bytes is padded to four characters.
\<close>

fun b64encode :: "bytes \<Rightarrow> str" where
  "b64encode [] = []"
| "b64encode [a] =
     [b2a_char (drop_bit 2 a), b2a_char (push_bit 4 (a AND 3)), 61, 61]"
| "b64encode [a, b] =
     [b2a_char (drop_bit 2 a), b2a_char (push_bit 4 (a AND 3) OR drop_bit 4 b),
      b2a_char (push_bit 2 (b AND 15)), 61]"
| "b64encode (a # b # c # rest) =
     [b2a_char (drop_bit 2 a), b2a_char (push_bit 4 (a AND 3) OR drop_bit 4 b),
      b2a_char (push_bit 2 (b AND 15) OR drop_bit 6 c), b2a_char (c AND 63)]
     @ b64encode rest"

text \<open>
  The decoding table of \<^verbatim>\<open>binascii\<close>: the six-bit value of an alphabet character,
  nothing for any other character.
\<close>

definition table_a2b_base64 :: "nat \<Rightarrow> byte option" where
  "table_a2b_base64 c =
     (if 65 \<le> c \<and> c \<le> 90 then Some (of_nat (c - 65))
      else if 97 \<le> c \<and> c \<le> 122 then Some (of_nat (c - 71))
      else if 48 \<le> c \<and> c \<le> 57 then Some (of_nat (c + 4))
      else if c = 43 then Some 62
      else if c = 47 then Some 63
      else None)"

text \<open>
  The loop of \<^verbatim>\<open>binascii.a2b_base64\<close> in its lenient mode (CPython 3.11 and later),
  which \<^verbatim>\<open>base64.b64decode\<close> calls with \<^verbatim>\<open>validate=False\<close>. Characters outside the
  alphabet are skipped; a pad character that completes a quad ends the decoding; input
  that ends inside a quad raises \<^verbatim>\<open>binascii.Error\<close>.
\<close>

fun a2b_base64 :: "nat \<Rightarrow> byte \<Rightarrow> nat \<Rightarrow> bytes \<Rightarrow> str \<Rightarrow> error + bytes" where
  "a2b_base64 quad_pos leftchar pads bin_data [] =
     (if quad_pos \<noteq> 0 then Inl Binascii_Error else Inr bin_data)"
| "a2b_base64 quad_pos leftchar pads bin_data (this_ch # rest) =
     (if this_ch = 61 then
        (if quad_pos \<ge> 2 then
           (if quad_pos + (pads + 1) \<ge> 4 then Inr bin_data
            else a2b_base64 quad_pos leftchar (pads + 1) bin_data rest)
         else a2b_base64 quad_pos leftchar pads bin_data rest)
      else
        (case table_a2b_base64 this_ch of
           None \<Rightarrow> a2b_base64 quad_pos leftchar pads bin_data rest
         | Some v \<Rightarrow>
             (if quad_pos = 0 then a2b_base64 1 v 0 bin_data rest
              else if quad_pos = 1 then
                a2b_base64 2 (v AND 0x0f) 0
                  (bin_data @ [push_bit 2 leftchar OR drop_bit 4 v]) rest
              else if quad_pos = 2 then
                a2b_base64 3 (v AND 0x03) 0
                  (bin_data @ [push_bit 4 leftchar OR drop_bit 2 v]) rest
              else
                a2b_base64 0 0 0 (bin_data @ [push_bit 6 leftchar OR v]) rest)))"

text \<open>
  \<^verbatim>\<open>base64.b64decode(s)\<close> on a \<^verbatim>\<open>str\<close>: the string is first encoded as ASCII, which
  raises \<^verbatim>\<open>ValueError\<close> on any other character.
\<close>

definition b64decode :: "str \<Rightarrow> error + bytes" where
  "b64decode s =
     (if list_ex (\<lambda>c. c \<ge> 128) s then Inl ValueError else a2b_base64 0 0 0 [] s)"

subsection \<open>\<^verbatim>\<open>str.strip\<close> and \<^verbatim>\<open>str.split(' ')\<close>\<close>

text \<open>The code points Python regards as whitespace.\<close>

definition py_isspace :: "nat \<Rightarrow> bool" where
  "py_isspace c \<longleftrightarrow>
     (9 \<le> c \<and> c \<le> 13) \<or> (28 \<le> c \<and> c \<le> 32) \<or> c = 0x85 \<or> c = 0xA0 \<or> c = 0x1680
     \<or> (0x2000 \<le> c \<and> c \<le> 0x200A) \<or> c = 0x2028 \<or> c = 0x2029 \<or> c = 0x202F
     \<or> c = 0x205F \<or> c = 0x3000"

definition py_strip :: "str \<Rightarrow> str" where
  "py_strip s = rev (dropWhile py_isspace (rev (dropWhile py_isspace s)))"

text \<open>
  \<^verbatim>\<open>s.split(' ')\<close> cuts at every single space; the result always has one element
  more than the string has spaces.
\<close>

fun split_space :: "str \<Rightarrow> str list" where
  "split_space [] = [[]]"
| "split_space (c # cs) =
     (if c = 32 then [] # split_space cs
      else (case split_space cs of [] \<Rightarrow> [[c]] | w # ws \<Rightarrow> (c # w) # ws))"

subsection \<open>\<^verbatim>\<open>secrets.token_bytes\<close>\<close>

text \<open>
  The system's randomness is a stream of bytes that is not yet consumed; drawing
  \<open>n\<close> bytes returns the first \<open>n\<close> and leaves the rest. A negative size raises
  \<^verbatim>\<open>ValueError\<close>.
\<close>

type_synonym entropy = "nat \<Rightarrow> byte"

definition token_bytes :: "int \<Rightarrow> entropy \<Rightarrow> (error + bytes) \<times> entropy" where
  "token_bytes nbytes ent =
     (if nbytes < 0 then (Inl ValueError, ent)
      else (Inr (map ent [0 ..< nat nbytes]), \<lambda>i. ent (i + nat nbytes)))"

section \<open>The password hasher\<close>

definition generate_random_salt :: "int \<Rightarrow> entropy \<Rightarrow> (error + bytes) \<times> entropy" where
  "generate_random_salt len = token_bytes len"

text \<open>
  \<^verbatim>\<open>hash_password(password, salt=None)\<close>; \<open>None\<close> for the salt draws 32 random bytes.
\<close>

definition hash_password :: "str \<Rightarrow> bytes option \<Rightarrow> entropy \<Rightarrow> (error + str) \<times> entropy" where
  "hash_password password salt ent =
     (case (case salt of None \<Rightarrow> generate_random_salt 32 ent | Some s \<Rightarrow> (Inr s, ent)) of
        (Inl e, ent') \<Rightarrow> (Inl e, ent')
      | (Inr salt', ent') \<Rightarrow>
          (case utf8_encode password of
             Inl e \<Rightarrow> (Inl e, ent')
           | Inr password_bytes \<Rightarrow>
               (let combined = salt' @ password_bytes;
                    hash1 = sha256 combined;
                    hash2 = sha256 hash1;
                    hash_b64 = b64encode hash2;
                    salt_b64 = b64encode salt'
                in (Inr (hash_b64 @ [32] @ salt_b64), ent'))))"

text \<open>
  The body of the \<^verbatim>\<open>try\<close> block of \<^verbatim>\<open>verify_password\<close>. The stored hash is any
  Python object; only a string has \<^verbatim>\<open>strip\<close>.
\<close>

definition verify_password_try :: "str \<Rightarrow> json \<Rightarrow> entropy \<Rightarrow> (error + bool) \<times> entropy" where
  "verify_password_try password existing_hash ent =
     (case existing_hash of
        JStr s \<Rightarrow>
          (let parts = split_space (py_strip s) in
           if length parts \<noteq> 2 then (Inr False, ent)
           else
             (let hash_b64 = parts ! 0; salt_b64 = parts ! 1 in
              case b64decode salt_b64 of
                Inl e \<Rightarrow> (Inl e, ent)
              | Inr salt \<Rightarrow>
                  (case hash_password password (Some salt) ent of
                     (Inl e, ent') \<Rightarrow> (Inl e, ent')
                   | (Inr new_hash, ent') \<Rightarrow> (Inr (JStr new_hash = existing_hash), ent'))))
      | _ \<Rightarrow> (Inl AttributeError, ent))"

text \<open>\<^verbatim>\<open>except Exception: return False\<close>.\<close>

definition verify_password :: "str \<Rightarrow> json \<Rightarrow> entropy \<Rightarrow> bool \<times> entropy" where
  "verify_password password existing_hash ent =
     (case verify_password_try password existing_hash ent of
        (Inl e, ent') \<Rightarrow> (False, ent')
      | (Inr b, ent') \<Rightarrow> (b, ent'))"


text \<open>
  The credential store file as \<^verbatim>\<open>os.path.exists\<close>, \<^verbatim>\<open>open\<close> and \<^verbatim>\<open>json.load\<close> see
  it: absent; present but not readable (\<^verbatim>\<open>OSError\<close>); readable but not text in the
  platform's encoding (\<^verbatim>\<open>UnicodeDecodeError\<close>); text that is not JSON
  (\<^verbatim>\<open>JSONDecodeError\<close>, an empty file among them); or a JSON document.
\<close>

datatype store_file = Absent | Unreadable | Undecodable | Malformed | Document json

type_synonym filesystem = "str \<Rightarrow> store_file"

text \<open>
  \<^verbatim>\<open>load_existing_hashes\<close> catches \<^verbatim>\<open>json.JSONDecodeError\<close> and \<^verbatim>\<open>IOError\<close> only; any
  other exception reaches the caller.
\<close>

definition load_existing_hashes :: "str \<Rightarrow> filesystem \<Rightarrow> error + json" where
  "load_existing_hashes security_json_path fs =
     (case fs security_json_path of
        Absent \<Rightarrow> Inr (JObj [])
      | Unreadable \<Rightarrow> Inr (JObj [])
      | Malformed \<Rightarrow> Inr (JObj [])
      | Undecodable \<Rightarrow> Inl UnicodeDecodeError
      | Document security_data \<Rightarrow>
          (case py_get security_data (ascii ''authentication'') (JObj []) of
             Inl e \<Rightarrow> Inl e
           | Inr authentication \<Rightarrow> py_get authentication (ascii ''credentials'') (JObj [])))"

definition verify_and_reuse ::
    "str \<Rightarrow> str \<Rightarrow> str \<Rightarrow> filesystem \<Rightarrow> entropy \<Rightarrow> (error + json) \<times> entropy" where
  "verify_and_reuse username password security_json_path fs ent =
     (case load_existing_hashes security_json_path fs of
        Inl e \<Rightarrow> (Inl e, ent)
      | Inr existing_hashes \<Rightarrow>
          (case py_get existing_hashes username JNull of
             Inl e \<Rightarrow> (Inl e, ent)
           | Inr existing_hash \<Rightarrow>
               (let (matches, ent') =
                      (if truthy existing_hash then verify_password password existing_hash ent
                       else (False, ent))
                in if matches then (Inr existing_hash, ent')
                   else (case hash_password password None ent' of
                           (Inl e, ent'') \<Rightarrow> (Inl e, ent'')
                         | (Inr new_hash, ent'') \<Rightarrow> (Inr (JStr new_hash), ent'')))))"

text \<open>
  The namespace \<^verbatim>\<open>parser.parse_args()\<close> returns, and what \<^verbatim>\<open>main\<close> does with it: the
  lines printed and the exit status.
\<close>

record args =
  arg_password :: "str option"
  arg_verify :: "(str \<times> str) option"
  arg_reuse :: "(str \<times> str \<times> str) option"
  arg_salt_bytes :: int

datatype printed = Print json | Print_help

definition main :: "args \<Rightarrow> filesystem \<Rightarrow> entropy \<Rightarrow> (error + printed list \<times> int) \<times> entropy" where
  "main a fs ent =
     (case arg_verify a of
        Some (password, expected_hash) \<Rightarrow>
          (case verify_password password (JStr expected_hash) ent of
             (True, ent') \<Rightarrow>
               (Inr ([Print (JStr (0x2713 # ascii '' Password matches hash''))], 0), ent')
           | (False, ent') \<Rightarrow>
               (Inr ([Print (JStr (0x2717 # ascii '' Password does NOT match hash''))], 1), ent'))
      | None \<Rightarrow>
          (case arg_reuse a of
             Some (username, password, security_json_path) \<Rightarrow>
               (case verify_and_reuse username password security_json_path fs ent of
                  (Inl e, ent') \<Rightarrow> (Inl e, ent')
                | (Inr hash_result, ent') \<Rightarrow> (Inr ([Print hash_result], 0), ent'))
           | None \<Rightarrow>
               (case arg_password a of
                  Some (c # cs) \<Rightarrow>
                    (case hash_password (c # cs) None ent of
                       (Inl e, ent') \<Rightarrow> (Inl e, ent')
                     | (Inr hashed, ent') \<Rightarrow> (Inr ([Print (JStr hashed)], 0), ent'))
                | _ \<Rightarrow> (Inr ([Print_help], 1), ent))))"

text \<open>
  The record the specification describes: the base64 of the double SHA-256 digest of
  salt and password bytes, one space, the base64 of the salt.
\<close>

definition encoded_hash_record :: "bytes \<Rightarrow> bytes \<Rightarrow> str" where
  "encoded_hash_record salt password_bytes =
     b64encode (sha256 (sha256 (salt @ password_bytes))) @ ascii '' '' @ b64encode salt"

text \<open>Two sources of randomness for concrete runs.\<close>

definition zero_entropy :: entropy where
  "zero_entropy = (\<lambda>i. 0)"

definition counting_entropy :: entropy where
  "counting_entropy = (\<lambda>i. of_nat i)"

text \<open>A file system in which every path shows the same store file.\<close>

definition store_with :: "store_file \<Rightarrow> filesystem" where
  "store_with f = (\<lambda>path. f)"

text \<open>The six-bit values.\<close>

definition sextets :: "nat list" where
  "sextets = concat
      [[0, 1, 2, 3, 4, 5, 6, 7],
       [8, 9, 10, 11, 12, 13, 14, 15],
       [16, 17, 18, 19, 20, 21, 22, 23],
       [24, 25, 26, 27, 28, 29, 30, 31],
       [32, 33, 34, 35, 36, 37, 38, 39],
       [40, 41, 42, 43, 44, 45, 46, 47],
       [48, 49, 50, 51, 52, 53, 54, 55],
       [56, 57, 58, 59, 60, 61, 62, 63]]"


section \<open>The health aggregator\<close>

text \<open>Shorthands for JSON literals.\<close>

definition jstr :: "string \<Rightarrow> json" where
  "jstr s = JStr (ascii s)"

definition jobj :: "(string \<times> json) list \<Rightarrow> json" where
  "jobj kvs = JObj (map (\<lambda>(k, v). (ascii k, v)) kvs)"

text \<open>The text of the \<^verbatim>\<open>AttributeError\<close> that \<^verbatim>\<open>get\<close> raises on a value without it.\<close>

fun type_name :: "json \<Rightarrow> str" where
  "type_name JNull = ascii ''NoneType''"
| "type_name (JBool b) = ascii ''bool''"
| "type_name (JInt i) = ascii ''int''"
| "type_name (JFloat f) = ascii ''float''"
| "type_name (JStr s) = ascii ''str''"
| "type_name (JArr xs) = ascii ''list''"
| "type_name (JObj kvs) = ascii ''dict''"

definition no_attribute_get :: "json \<Rightarrow> str" where
  "no_attribute_get v = [39] @ type_name v @ [39] @ ascii '' object has no attribute '' @ [39]
     @ ascii ''get'' @ [39]"

text \<open>
  What the request to an upstream admin endpoint does: \<^verbatim>\<open>urlopen\<close> raises
  \<^verbatim>\<open>URLError\<close>; something else raises (a timeout of the socket, a body that is not
  JSON); or the body parses. The string is \<^verbatim>\<open>str(e)\<close>.
\<close>

datatype fetch = URLError str | Failure str | Response json

definition check_solr :: "fetch \<Rightarrow> json" where
  "check_solr upstream =
     (case upstream of
        URLError e \<Rightarrow> jobj [(''available'', JBool False), (''error'', JStr e)]
      | Failure e \<Rightarrow>
          jobj [(''available'', JBool False), (''error'', JStr (ascii ''Unexpected error: '' @ e))]
      | Response data \<Rightarrow>
          (case py_get data (ascii ''status'') JNull of
             Inl _ \<Rightarrow>
               jobj [(''available'', JBool False),
                     (''error'', JStr (ascii ''Unexpected error: '' @ no_attribute_get data))]
           | Inr status \<Rightarrow>
               (case py_get data (ascii ''responseHeader'') (JObj []) of
                  Inl _ \<Rightarrow>
                    jobj [(''available'', JBool False),
                          (''error'', JStr (ascii ''Unexpected error: '' @ no_attribute_get data))]
                | Inr header \<Rightarrow>
                    (case py_get header (ascii ''QTime'') (JInt 0) of
                       Inl _ \<Rightarrow>
                         jobj [(''available'', JBool False),
                               (''error'',
                                JStr (ascii ''Unexpected error: '' @ no_attribute_get header))]
                     | Inr qtime \<Rightarrow>
                         jobj [(''available'', JBool True), (''status'', status),
                               (''response_time_ms'', qtime)]))))"

text \<open>An HTTP response: status code, content type and body.\<close>

datatype body = Json_body json | Error_page str

record response =
  status_code :: nat
  content_type :: "str option"
  content :: body

definition handle_ping :: response where
  "handle_ping =
     \<lparr>status_code = 200, content_type = Some (ascii ''application/json''),
      content = Json_body (jobj [(''status'', jstr ''ok'')])\<rparr>"

text \<open>The dictionary \<^verbatim>\<open>health_data\<close> with its seven keys.\<close>

definition health_data :: "str \<Rightarrow> str \<Rightarrow> json \<Rightarrow> json \<Rightarrow> json \<Rightarrow> str list \<Rightarrow> json" where
  "health_data customer status solr cores system errors =
     jobj [(''customer'', JStr customer), (''version'', jstr ''2.2.0''), (''status'', JStr status),
           (''solr'', solr), (''cores'', cores), (''system'', system),
           (''errors'', JArr (map JStr errors))]"

text \<open>
  \<^verbatim>\<open>handle_health\<close>, given what the calls \<^verbatim>\<open>self.check_solr()\<close>, \<^verbatim>\<open>self.get_cores()\<close>
  and \<^verbatim>\<open>self.get_system_info()\<close> do when they are made: raise an exception with a
  message (\<open>Inl\<close>) or return a value. The result is the final \<^verbatim>\<open>health_data\<close>.
\<close>

definition health_check :: "str \<Rightarrow> str + json \<Rightarrow> str + json \<Rightarrow> str + json \<Rightarrow> json" where
  "health_check customer solr_call cores_call system_call =
     (case solr_call of
        Inl e \<Rightarrow> health_data customer (ascii ''error'') (JObj []) (JArr []) (JObj []) [e]
      | Inr solr_health \<Rightarrow>
          (case py_get solr_health (ascii ''available'') JNull of
             Inl _ \<Rightarrow>
               health_data customer (ascii ''error'') solr_health (JArr []) (JObj [])
                 [no_attribute_get solr_health]
           | Inr available \<Rightarrow>
               if truthy available then
                 (case cores_call of
                    Inl e \<Rightarrow>
                      health_data customer (ascii ''error'') solr_health (JArr []) (JObj []) [e]
                  | Inr cores \<Rightarrow>
                      (case system_call of
                         Inl e \<Rightarrow>
                           health_data customer (ascii ''error'') solr_health cores (JObj []) [e]
                       | Inr system_info \<Rightarrow>
                           health_data customer (ascii ''healthy'') solr_health cores system_info
                             []))
               else
                 health_data customer (ascii ''unhealthy'') solr_health (JArr []) (JObj [])
                   [ascii ''Solr is not available'']))"

text \<open>\<^verbatim>\<open>health_data["status"]\<close>.\<close>

definition status_of :: "json \<Rightarrow> json option" where
  "status_of d = (case d of JObj kvs \<Rightarrow> map_of kvs (ascii ''status'') | _ \<Rightarrow> None)"

definition handle_health :: "str \<Rightarrow> str + json \<Rightarrow> str + json \<Rightarrow> str + json \<Rightarrow> response" where
  "handle_health customer solr_call cores_call system_call =
     (let data = health_check customer solr_call cores_call system_call;
          code = (if status_of data = Some (jstr ''healthy'') then 200 else 503)
      in \<lparr>status_code = code, content_type = Some (ascii ''application/json''),
          content = Json_body data\<rparr>)"

definition do_GET :: "str \<Rightarrow> str \<Rightarrow> str + json \<Rightarrow> str + json \<Rightarrow> str + json \<Rightarrow> response" where
  "do_GET path customer solr_call cores_call system_call =
     (if path = ascii ''/health'' then handle_health customer solr_call cores_call system_call
      else if path = ascii ''/ping'' then handle_ping
      else \<lparr>status_code = 404, content_type = Some (ascii ''text/html;charset=utf-8''),
            content = Error_page (ascii ''Not Found'')\<rparr>)"

section \<open>The dashboard mutation scripts\<close>

subsection \<open>Python operations on parsed JSON\<close>

text \<open>Iterating a value: a list gives its elements, a dictionary its keys, a string its
  characters; nothing else is iterable.\<close>

fun py_iter :: "json \<Rightarrow> error + json list" where
  "py_iter (JArr xs) = Inr xs"
| "py_iter (JObj kvs) = Inr (map (\<lambda>(k, v). JStr k) kvs)"
| "py_iter (JStr s) = Inr (map (\<lambda>c. JStr [c]) s)"
| "py_iter _ = Inl TypeError"

text \<open>A list comprehension whose element expression can raise: the first exception wins.\<close>

fun comprehension :: "('a \<Rightarrow> error + 'b) \<Rightarrow> 'a list \<Rightarrow> error + 'b list" where
  "comprehension f [] = Inr []"
| "comprehension f (x # xs) =
     (case f x of
        Inl e \<Rightarrow> Inl e
      | Inr y \<Rightarrow> (case comprehension f xs of Inl e \<Rightarrow> Inl e | Inr ys \<Rightarrow> Inr (y # ys)))"

text \<open>
  Floating-point numbers. The 64 bits of a double are a sign, an exponent field of 11
  bits and a mantissa of 52 bits; exponent field 2047 is an infinity (mantissa 0) or a
  NaN. Every finite double is a whole multiple of \<open>2\<^sup>-\<^sup>1\<^sup>0\<^sup>7\<^sup>4\<close>; \<open>scaled\<close> is this
  multiple.
\<close>

definition float_sign :: "64 word \<Rightarrow> bool" where
  "float_sign f = bit f 63"

definition float_exponent :: "64 word \<Rightarrow> nat" where
  "float_exponent f = unat (drop_bit 52 f AND 0x7FF)"

definition float_mantissa :: "64 word \<Rightarrow> nat" where
  "float_mantissa f = unat (f AND 0xFFFFFFFFFFFFF)"

definition is_nan :: "64 word \<Rightarrow> bool" where
  "is_nan f \<longleftrightarrow> float_exponent f = 2047 \<and> float_mantissa f \<noteq> 0"

definition is_inf :: "64 word \<Rightarrow> bool" where
  "is_inf f \<longleftrightarrow> float_exponent f = 2047 \<and> float_mantissa f = 0"

definition scaled :: "64 word \<Rightarrow> int" where
  "scaled f =
     (let magnitude =
            (if float_exponent f = 0 then int (float_mantissa f)
             else (2 ^ 52 + int (float_mantissa f)) * 2 ^ (float_exponent f - 1))
      in if float_sign f then - magnitude else magnitude)"

definition pack_float :: "bool \<Rightarrow> nat \<Rightarrow> nat \<Rightarrow> 64 word" where
  "pack_float negative e m = of_nat ((if negative then 2 ^ 63 else 0) + e * 2 ^ 52 + m)"

text \<open>The number of binary digits of a natural number.\<close>

fun bit_length :: "nat \<Rightarrow> nat" where
  "bit_length n = (if n = 0 then 0 else Suc (bit_length (n div 2)))"

declare bit_length.simps [simp del]

text \<open>
  The double nearest to \<open>n\<close> multiples of \<open>2\<^sup>-\<^sup>1\<^sup>0\<^sup>7\<^sup>4\<close>, with the given sign: rounding to
  53 binary digits, ties to the even mantissa, and to an infinity beyond the largest
  double.
\<close>

definition nearest_float :: "bool \<Rightarrow> nat \<Rightarrow> 64 word" where
  "nearest_float negative n =
     (let l = bit_length n in
      if l \<le> 52 then pack_float negative 0 n
      else
        (let shift = l - 53;
             q = n div 2 ^ shift;
             r = n mod 2 ^ shift;
             q' = (if 2 * r > 2 ^ shift \<or> (2 * r = 2 ^ shift \<and> odd q) then q + 1 else q);
             e = (if q' = 2 ^ 53 then l - 51 else l - 52);
             m = (if q' = 2 ^ 53 then 0 else q' - 2 ^ 52)
         in if e \<ge> 2047 then pack_float negative 2047 0 else pack_float negative e m))"

text \<open>Addition of doubles. A NaN that results is the canonical one; Python prints
  every NaN alike.\<close>

definition float_add :: "64 word \<Rightarrow> 64 word \<Rightarrow> 64 word" where
  "float_add x y =
     (if is_nan x \<or> is_nan y then 0x7FF8000000000000
      else if is_inf x then
        (if is_inf y \<and> float_sign x \<noteq> float_sign y then 0x7FF8000000000000 else x)
      else if is_inf y then y
      else
        (let k = scaled x + scaled y in
         if k = 0 then pack_float (float_sign x \<and> float_sign y) 0 0
         else nearest_float (k < 0) (nat \<bar>k\<bar>)))"

text \<open>The conversion of an integer that precedes an operation with a \<^verbatim>\<open>float\<close>; an
  integer beyond the doubles raises \<^verbatim>\<open>OverflowError\<close>.\<close>

definition float_of_int :: "int \<Rightarrow> 64 word option" where
  "float_of_int i =
     (if i = 0 then Some 0
      else
        (let f = nearest_float (i < 0) (nat \<bar>i\<bar> * 2 ^ 1074)
         in if is_inf f then None else Some f))"

text \<open>Numbers: integers, booleans, which Python counts as 0 and 1, and floats.\<close>

fun as_int :: "json \<Rightarrow> int option" where
  "as_int (JInt i) = Some i"
| "as_int (JBool b) = Some (if b then 1 else 0)"
| "as_int _ = None"

fun is_float :: "json \<Rightarrow> bool" where
  "is_float (JFloat f) = True"
| "is_float _ = False"

definition is_number :: "json \<Rightarrow> bool" where
  "is_number v \<longleftrightarrow> as_int v \<noteq> None \<or> is_float v"

text \<open>
  \<^verbatim>\<open>x + y\<close>: numbers add, an integer next to a float being converted first; strings
  and lists concatenate; anything else raises.
\<close>

fun py_add :: "json \<Rightarrow> json \<Rightarrow> error + json" where
  "py_add (JStr s) (JStr t) = Inr (JStr (s @ t))"
| "py_add (JArr xs) (JArr ys) = Inr (JArr (xs @ ys))"
| "py_add (JFloat f) (JFloat g) = Inr (JFloat (float_add f g))"
| "py_add (JFloat f) y =
     (case as_int y of
        None \<Rightarrow> Inl TypeError
      | Some j \<Rightarrow>
          (case float_of_int j of
             None \<Rightarrow> Inl OverflowError
           | Some g \<Rightarrow> Inr (JFloat (float_add f g))))"
| "py_add x (JFloat g) =
     (case as_int x of
        None \<Rightarrow> Inl TypeError
      | Some i \<Rightarrow>
          (case float_of_int i of
             None \<Rightarrow> Inl OverflowError
           | Some f \<Rightarrow> Inr (JFloat (float_add f g))))"
| "py_add x y =
     (case (as_int x, as_int y) of
        (Some i, Some j) \<Rightarrow> Inr (JInt (i + j))
      | _ \<Rightarrow> Inl TypeError)"

text \<open>
  \<^verbatim>\<open>x > y\<close> on numbers compares their exact values. The key of a number is a pair:
  first -1, 0 or 1 for minus infinity, a finite number or plus infinity, second the
  finite value in multiples of \<open>2\<^sup>-\<^sup>1\<^sup>0\<^sup>7\<^sup>4\<close>. A NaN has no key and compares false with
  everything.
\<close>

fun num_key :: "json \<Rightarrow> (int \<times> int) option" where
  "num_key (JFloat f) =
     (if is_nan f then None
      else if is_inf f then Some (if float_sign f then - 1 else 1, 0)
      else Some (0, scaled f))"
| "num_key v = (case as_int v of None \<Rightarrow> None | Some i \<Rightarrow> Some (0, i * 2 ^ 1074))"

definition py_gt :: "json \<Rightarrow> json \<Rightarrow> bool" where
  "py_gt x y =
     (case (num_key x, num_key y) of
        (Some (a, b), Some (c, d)) \<Rightarrow> a > c \<or> (a = c \<and> b > d)
      | _ \<Rightarrow> False)"

text \<open>
  \<^verbatim>\<open>max(values, default=0)\<close> followed by an addition of a number, as the script uses
  it. On numbers \<^verbatim>\<open>max\<close> keeps the first item and replaces it by every later item
  that is greater; for the empty list it is 0. A value that is not a number makes
  either a comparison inside \<^verbatim>\<open>max\<close> or the addition after it raise \<^verbatim>\<open>TypeError\<close>.
\<close>

definition py_max :: "json list \<Rightarrow> error + json" where
  "py_max vs =
     (if list_ex (\<lambda>v. \<not> is_number v) vs then Inl TypeError
      else
        (case vs of
           [] \<Rightarrow> Inr (JInt 0)
         | x # xs \<Rightarrow> Inr (foldl (\<lambda>maxitem item. if py_gt item maxitem then item else maxitem) x xs)))"

text \<open>\<^verbatim>\<open>d[key]\<close> and \<^verbatim>\<open>d[key] = value\<close> on a dictionary.\<close>

definition py_getitem :: "(str \<times> json) list \<Rightarrow> str \<Rightarrow> error + json" where
  "py_getitem kvs key = (case map_of kvs key of None \<Rightarrow> Inl KeyError | Some v \<Rightarrow> Inr v)"

definition py_setitem :: "(str \<times> json) list \<Rightarrow> str \<Rightarrow> json \<Rightarrow> (str \<times> json) list" where
  "py_setitem kvs key v =
     (if key \<in> fst ` set kvs then map (\<lambda>(k, w). if k = key then (k, v) else (k, w)) kvs
      else kvs @ [(key, v)])"

subsection \<open>\<^verbatim>\<open>add-query-performance-dashboard.py\<close>\<close>

text \<open>The six panels, each built from the values \<^verbatim>\<open>next_id\<close> and \<^verbatim>\<open>next_y\<close> have when
  the script reaches it.\<close>

definition query_row :: "json \<Rightarrow> json \<Rightarrow> json" where
  \<open>query_row next_id next_y =
     jobj [
       (''collapsed'', JBool False),
       (''gridPos'', jobj [(''h'', JInt 1), (''w'', JInt 24), (''x'', JInt 0), (''y'', next_y)]),
       (''id'', next_id),
       (''panels'', JArr []),
       (''title'', jstr ''Query Performance Analysis''),
       (''type'', jstr ''row'')]\<close>

definition panel_latency :: "json \<Rightarrow> json \<Rightarrow> json" where
  \<open>panel_latency next_id next_y =
     jobj [
       (''id'', next_id),
       (''gridPos'', jobj [(''h'', JInt 8), (''w'', JInt 12), (''x'', JInt 0), (''y'', next_y)]),
       (''type'', jstr ''graph''),
       (''title'', jstr ''Query Latency Percentiles''),
       (''description'', jstr ''Query response time distribution (p50, p95, p99)''),
       (''targets'', JArr [
         jobj [
           (''expr'', jstr ''histogram_quantile(0.50, rate(solr_metrics_core_query_time_bucket{core=~"$core",instance=~"$instance"}[5m]))''),
           (''legendFormat'', jstr ''p50 (median)''),
           (''refId'', jstr ''A'')],
         jobj [
           (''expr'', jstr ''histogram_quantile(0.95, rate(solr_metrics_core_query_time_bucket{core=~"$core",instance=~"$instance"}[5m]))''),
           (''legendFormat'', jstr ''p95''),
           (''refId'', jstr ''B'')],
         jobj [
           (''expr'', jstr ''histogram_quantile(0.99, rate(solr_metrics_core_query_time_bucket{core=~"$core",instance=~"$instance"}[5m]))''),
           (''legendFormat'', jstr ''p99''),
           (''refId'', jstr ''C'')]]),
       (''yaxes'', JArr [
         jobj [(''format'', jstr ''ms''), (''label'', jstr ''Latency'')],
         jobj [(''format'', jstr ''short'')]]),
       (''xaxis'', jobj [(''mode'', jstr ''time''), (''show'', JBool True)]),
       (''lines'', JBool True),
       (''fill'', JInt 0),
       (''linewidth'', JInt 2),
       (''pointradius'', JInt 2),
       (''points'', JBool False),
       (''bars'', JBool False),
       (''stack'', JBool False),
       (''percentage'', JBool False),
       (''legend'', jobj [
         (''show'', JBool True),
         (''values'', JBool True),
         (''current'', JBool True),
         (''max'', JBool True),
         (''alignAsTable'', JBool True)]),
       (''nullPointMode'', jstr ''null''),
       (''tooltip'', jobj [
         (''shared'', JBool True),
         (''sort'', JInt 0),
         (''value_type'', jstr ''individual'')]),
       (''thresholds'', JArr [
         jobj [
           (''value'', JInt 100),
           (''colorMode'', jstr ''critical''),
           (''op'', jstr ''gt''),
           (''fill'', JBool True),
           (''line'', JBool True)],
         jobj [
           (''value'', JInt 500),
           (''colorMode'', jstr ''custom''),
           (''op'', jstr ''gt''),
           (''fill'', JBool True),
           (''line'', JBool True),
           (''fillColor'', jstr ''rgba(234, 112, 112, 0.2)''),
           (''lineColor'', jstr ''rgb(234, 112, 112)'')]])]\<close>

definition panel_slow :: "json \<Rightarrow> json \<Rightarrow> json" where
  \<open>panel_slow next_id next_y =
     jobj [
       (''id'', next_id),
       (''gridPos'', jobj [(''h'', JInt 8), (''w'', JInt 12), (''x'', JInt 12), (''y'', next_y)]),
       (''type'', jstr ''graph''),
       (''title'', jstr ''Slow Queries (>1s)''),
       (''description'', jstr ''Number of queries taking longer than 1 second''),
       (''targets'', JArr [
         jobj [
           (''expr'', jstr ''sum(rate(solr_metrics_core_query_time_bucket{core=~"$core",instance=~"$instance",le="1000"}[5m])) by (core)''),
           (''legendFormat'', jstr ''{{core}} - queries >1s''),
           (''refId'', jstr ''A'')]]),
       (''yaxes'', JArr [
         jobj [(''format'', jstr ''reqps''), (''label'', jstr ''Queries/sec'')],
         jobj [(''format'', jstr ''short'')]]),
       (''xaxis'', jobj [(''mode'', jstr ''time''), (''show'', JBool True)]),
       (''lines'', JBool True),
       (''fill'', JInt 2),
       (''linewidth'', JInt 2),
       (''pointradius'', JInt 2),
       (''points'', JBool False),
       (''bars'', JBool False),
       (''stack'', JBool False),
       (''percentage'', JBool False),
       (''legend'', jobj [
         (''show'', JBool True),
         (''values'', JBool True),
         (''current'', JBool True),
         (''total'', JBool True),
         (''alignAsTable'', JBool True)]),
       (''nullPointMode'', jstr ''null''),
       (''tooltip'', jobj [
         (''shared'', JBool True),
         (''sort'', JInt 2),
         (''value_type'', jstr ''individual'')]),
       (''alert'', jobj [
         (''name'', jstr ''High Slow Query Rate''),
         (''conditions'', JArr [
           jobj [
             (''evaluator'', jobj [(''params'', JArr [JInt 10]), (''type'', jstr ''gt'')]),
             (''operator'', jobj [(''type'', jstr ''and'')]),
             (''query'', jobj [(''params'', JArr [jstr ''A'', jstr ''5m'', jstr ''now''])]),
             (''reducer'', jobj [(''params'', JArr []), (''type'', jstr ''avg'')]),
             (''type'', jstr ''query'')]]),
         (''executionErrorState'', jstr ''alerting''),
         (''frequency'', jstr ''1m''),
         (''handler'', JInt 1),
         (''message'', jstr ''Slow query rate is high''),
         (''noDataState'', jstr ''no_data''),
         (''notifications'', JArr [])])]\<close>

definition panel_rate :: "json \<Rightarrow> json \<Rightarrow> json" where
  \<open>panel_rate next_id next_y =
     jobj [
       (''id'', next_id),
       (''gridPos'', jobj [(''h'', JInt 8), (''w'', JInt 12), (''x'', JInt 0), (''y'', next_y)]),
       (''type'', jstr ''graph''),
       (''title'', jstr ''Query Rate by Handler''),
       (''description'', jstr ''Queries per second by request handler''),
       (''targets'', JArr [
         jobj [
           (''expr'', jstr ''sum(rate(solr_metrics_core_query_requests_total{core=~"$core",instance=~"$instance"}[5m])) by (handler)''),
           (''legendFormat'', jstr ''{{handler}}''),
           (''refId'', jstr ''A'')]]),
       (''yaxes'', JArr [
         jobj [(''format'', jstr ''reqps''), (''label'', jstr ''Queries/sec'')],
         jobj [(''format'', jstr ''short'')]]),
       (''xaxis'', jobj [(''mode'', jstr ''time''), (''show'', JBool True)]),
       (''lines'', JBool True),
       (''fill'', JInt 1),
       (''linewidth'', JInt 2),
       (''pointradius'', JInt 2),
       (''points'', JBool False),
       (''bars'', JBool False),
       (''stack'', JBool True),
       (''percentage'', JBool False),
       (''legend'', jobj [
         (''show'', JBool True),
         (''values'', JBool True),
         (''current'', JBool True),
         (''total'', JBool True),
         (''alignAsTable'', JBool True)]),
       (''nullPointMode'', jstr ''null as zero''),
       (''tooltip'', jobj [
         (''shared'', JBool True),
         (''sort'', JInt 2),
         (''value_type'', jstr ''individual'')])]\<close>

definition panel_cache :: "json \<Rightarrow> json \<Rightarrow> json" where
  \<open>panel_cache next_id next_y =
     jobj [
       (''id'', next_id),
       (''gridPos'', jobj [(''h'', JInt 8), (''w'', JInt 12), (''x'', JInt 12), (''y'', next_y)]),
       (''type'', jstr ''stat''),
       (''title'', jstr ''Query Cache Hit Ratio''),
       (''description'', jstr ''Percentage of queries served from cache''),
       (''targets'', JArr [
         jobj [
           (''expr'', jstr ''100 * (rate(solr_metrics_core_query_result_cache_hits_total{core=~"$core",instance=~"$instance"}[5m]) / (rate(solr_metrics_core_query_result_cache_hits_total{core=~"$core",instance=~"$instance"}[5m]) + rate(solr_metrics_core_query_result_cache_misses_total{core=~"$core",instance=~"$instance"}[5m])))''),
           (''legendFormat'', jstr ''{{core}}''),
           (''refId'', jstr ''A'')]]),
       (''options'', jobj [
         (''reduceOptions'', jobj [
           (''values'', JBool False),
           (''calcs'', JArr [jstr ''lastNotNull'']),
           (''fields'', jstr '''')]),
         (''orientation'', jstr ''auto''),
         (''textMode'', jstr ''value_and_name''),
         (''colorMode'', jstr ''value''),
         (''graphMode'', jstr ''area''),
         (''justifyMode'', jstr ''auto'')]),
       (''fieldConfig'', jobj [
         (''defaults'', jobj [
           (''unit'', jstr ''percent''),
           (''decimals'', JInt 1),
           (''min'', JInt 0),
           (''max'', JInt 100),
           (''thresholds'', jobj [
             (''mode'', jstr ''absolute''),
             (''steps'', JArr [
               jobj [(''value'', JInt 0), (''color'', jstr ''red'')],
               jobj [(''value'', JInt 50), (''color'', jstr ''yellow'')],
               jobj [(''value'', JInt 80), (''color'', jstr ''green'')]])])])])]\<close>

definition panel_trend :: "json \<Rightarrow> json \<Rightarrow> json" where
  \<open>panel_trend next_id next_y =
     jobj [
       (''id'', next_id),
       (''gridPos'', jobj [(''h'', JInt 8), (''w'', JInt 24), (''x'', JInt 0), (''y'', next_y)]),
       (''type'', jstr ''graph''),
       (''title'', jstr ''Average Query Time Trend''),
       (''description'', jstr ''Average query execution time over time by core''),
       (''targets'', JArr [
         jobj [
           (''expr'', jstr ''rate(solr_metrics_core_query_time_sum{core=~"$core",instance=~"$instance"}[5m]) / rate(solr_metrics_core_query_requests_total{core=~"$core",instance=~"$instance"}[5m])''),
           (''legendFormat'', jstr ''{{core}}''),
           (''refId'', jstr ''A'')]]),
       (''yaxes'', JArr [
         jobj [(''format'', jstr ''ms''), (''label'', jstr ''Avg Time'')],
         jobj [(''format'', jstr ''short'')]]),
       (''xaxis'', jobj [(''mode'', jstr ''time''), (''show'', JBool True)]),
       (''lines'', JBool True),
       (''fill'', JInt 0),
       (''linewidth'', JInt 2),
       (''pointradius'', JInt 2),
       (''points'', JBool False),
       (''bars'', JBool False),
       (''stack'', JBool False),
       (''percentage'', JBool False),
       (''legend'', jobj [
         (''show'', JBool True),
         (''values'', JBool True),
         (''current'', JBool True),
         (''avg'', JBool True),
         (''max'', JBool True),
         (''alignAsTable'', JBool True)]),
       (''nullPointMode'', jstr ''null''),
       (''tooltip'', jobj [
         (''shared'', JBool True),
         (''sort'', JInt 0),
         (''value_type'', jstr ''individual'')]),
       (''thresholds'', JArr [
         jobj [
           (''value'', JInt 50),
           (''colorMode'', jstr ''custom''),
           (''op'', jstr ''gt''),
           (''fill'', JBool False),
           (''line'', JBool True),
           (''lineColor'', jstr ''rgba(245, 150, 40, 0.8)'')],
         jobj [
           (''value'', JInt 100),
           (''colorMode'', jstr ''custom''),
           (''op'', jstr ''gt''),
           (''fill'', JBool False),
           (''line'', JBool True),
           (''lineColor'', jstr ''rgba(234, 112, 112, 0.8)'')]])]\<close>

text \<open>The sum in the second list comprehension.\<close>

definition grid_bottom :: "json \<Rightarrow> error + json" where
  "grid_bottom p =
     (case py_get p (ascii ''gridPos'') (JObj []) of
        Inl e \<Rightarrow> Inl e
      | Inr g1 \<Rightarrow>
          (case py_get g1 (ascii ''y'') (JInt 0) of
             Inl e \<Rightarrow> Inl e
           | Inr y \<Rightarrow>
               (case py_get p (ascii ''gridPos'') (JObj []) of
                  Inl e \<Rightarrow> Inl e
                | Inr g2 \<Rightarrow>
                    (case py_get g2 (ascii ''h'') (JInt 0) of
                       Inl e \<Rightarrow> Inl e
                     | Inr h \<Rightarrow> py_add y h))))"

text \<open>\<^verbatim>\<open>next_id\<close> and \<^verbatim>\<open>next_y\<close> as the first lines of the function compute them.\<close>

definition first_next_id :: "json list \<Rightarrow> error + json" where
  "first_next_id existing_panels =
     (case comprehension (\<lambda>p. py_get p (ascii ''id'') (JInt 0)) existing_panels of
        Inl e \<Rightarrow> Inl e
      | Inr ids \<Rightarrow> (case py_max ids of Inl e \<Rightarrow> Inl e | Inr m \<Rightarrow> py_add m (JInt 1)))"

definition first_next_y :: "json list \<Rightarrow> error + json" where
  "first_next_y existing_panels =
     (case comprehension grid_bottom existing_panels of
        Inl e \<Rightarrow> Inl e
      | Inr bottoms \<Rightarrow> py_max bottoms)"

text \<open>A statement that can raise, followed by the rest of the function.\<close>

definition and_then :: "error + 'a \<Rightarrow> ('a \<Rightarrow> error + 'b) \<Rightarrow> error + 'b" where
  "and_then first rest = (case first of Inl e \<Rightarrow> Inl e | Inr v \<Rightarrow> rest v)"

text \<open>The panels in the order the script builds them, with the increments of
  \<^verbatim>\<open>next_id\<close> and \<^verbatim>\<open>next_y\<close> between them.\<close>

definition new_panels :: "json \<Rightarrow> json \<Rightarrow> error + json list" where
  "new_panels next_id next_y =
     and_then (py_add next_id (JInt 1)) (\<lambda>id2.
     and_then (py_add next_y (JInt 1)) (\<lambda>y2.
     and_then (py_add id2 (JInt 1)) (\<lambda>id3.
     and_then (py_add id3 (JInt 1)) (\<lambda>id4.
     and_then (py_add y2 (JInt 8)) (\<lambda>y3.
     and_then (py_add id4 (JInt 1)) (\<lambda>id5.
     and_then (py_add id5 (JInt 1)) (\<lambda>id6.
     and_then (py_add y3 (JInt 8)) (\<lambda>y4.
       Inr [query_row next_id next_y, panel_latency id2 y2, panel_slow id3 y2,
            panel_rate id4 y3, panel_cache id5 y3, panel_trend id6 y4]))))))))"

definition add_query_performance_panels :: "json \<Rightarrow> error + json" where
  "add_query_performance_panels dashboard =
     (case py_get dashboard (ascii ''panels'') (JArr []) of
        Inl e \<Rightarrow> Inl e
      | Inr existing_panels \<Rightarrow>
     (case py_iter existing_panels of
        Inl e \<Rightarrow> Inl e
      | Inr ps \<Rightarrow>
     (case first_next_id ps of
        Inl e \<Rightarrow> Inl e
      | Inr next_id \<Rightarrow>
     (case first_next_y ps of
        Inl e \<Rightarrow> Inl e
      | Inr next_y \<Rightarrow>
     (case new_panels next_id next_y of
        Inl e \<Rightarrow> Inl e
      | Inr built \<Rightarrow>
     (case dashboard of
        JObj kvs \<Rightarrow>
          (case py_getitem kvs (ascii ''panels'') of
             Inl e \<Rightarrow> Inl e
           | Inr (JArr panels) \<Rightarrow>
               (let kvs1 = py_setitem kvs (ascii ''panels'') (JArr (panels @ built))
                in case py_get (JObj kvs1) (ascii ''version'') (JInt 0) of
                     Inl e \<Rightarrow> Inl e
                   | Inr v \<Rightarrow>
                       (case py_add v (JInt 1) of
                          Inl e \<Rightarrow> Inl e
                        | Inr version \<Rightarrow>
                            Inr (JObj (py_setitem (py_setitem kvs1 (ascii ''version'') version)
                                         (ascii ''refresh'') (jstr ''30s'')))))
           | Inr _ \<Rightarrow> Inl AttributeError)
      | _ \<Rightarrow> Inl AttributeError))))))"

subsection \<open>\<^verbatim>\<open>add-grafana-templating.py\<close>\<close>

text \<open>\<^verbatim>\<open>needle in s\<close> and \<^verbatim>\<open>s.replace(old, new)\<close> on strings (\<open>old\<close> is not empty).\<close>

fun is_substring :: "str \<Rightarrow> str \<Rightarrow> bool" where
  "is_substring needle [] = (needle = [])"
| "is_substring needle (c # cs) = (take (length needle) (c # cs) = needle \<or> is_substring needle cs)"

text \<open>The first argument counts the characters still to skip after a match.\<close>

fun replace_from :: "nat \<Rightarrow> str \<Rightarrow> str \<Rightarrow> str \<Rightarrow> str" where
  "replace_from skip old new [] = []"
| "replace_from (Suc skip) old new (c # cs) = replace_from skip old new cs"
| "replace_from 0 old new (c # cs) =
     (if take (length old) (c # cs) = old then new @ replace_from (length old - 1) old new cs
      else c # replace_from 0 old new cs)"

definition str_replace :: "str \<Rightarrow> str \<Rightarrow> str \<Rightarrow> str" where
  "str_replace old new s = replace_from 0 old new s"

text \<open>
  \<^verbatim>\<open>re.sub(r'core="[^"]*"', 'core=~"$core"', s)\<close>: every match, from the left, of
  \<^verbatim>\<open>core="\<close>, characters other than the double quote, and a closing double quote.
\<close>

fun sub_core_from :: "nat \<Rightarrow> str \<Rightarrow> str" where
  \<open>sub_core_from skip [] = []\<close>
| \<open>sub_core_from (Suc skip) (c # cs) = sub_core_from skip cs\<close>
| \<open>sub_core_from 0 (c # cs) =
     (if take 6 (c # cs) = ascii ''core="'' \<and> 34 \<in> set (drop 6 (c # cs)) then
        ascii ''core=~"$core"''
        @ sub_core_from (6 + length (takeWhile (\<lambda>x. x \<noteq> 34) (drop 6 (c # cs)))) cs
      else c # sub_core_from 0 cs)\<close>

text \<open>
  \<^verbatim>\<open>needle in x\<close> for a string \<^verbatim>\<open>needle\<close>: a key of a dictionary, an element of a list,
  a substring of a string; other values are not containers.
\<close>

fun py_contains :: "str \<Rightarrow> json \<Rightarrow> error + bool" where
  "py_contains needle (JObj kvs) = Inr (map_of kvs needle \<noteq> None)"
| "py_contains needle (JArr xs) = Inr (JStr needle \<in> set xs)"
| "py_contains needle (JStr s) = Inr (is_substring needle s)"
| "py_contains needle _ = Inl TypeError"

text \<open>\<^verbatim>\<open>x[key]\<close> for a string \<^verbatim>\<open>key\<close>: only a dictionary can be indexed by a string.\<close>

fun py_index :: "json \<Rightarrow> str \<Rightarrow> error + json" where
  "py_index (JObj kvs) key = py_getitem kvs key"
| "py_index _ key = Inl TypeError"

text \<open>\<^verbatim>\<open>x.replace(old, new)\<close>: a method of strings only.\<close>

fun py_replace :: "json \<Rightarrow> str \<Rightarrow> str \<Rightarrow> error + json" where
  "py_replace (JStr s) old new = Inr (JStr (str_replace old new s))"
| "py_replace _ old new = Inl AttributeError"

text \<open>The template variables the script installs.\<close>

definition templating :: json where
  \<open>templating =
     jobj [
       (''list'', JArr [
         jobj [
           (''current'', jobj [
             (''selected'', JBool False),
             (''text'', jstr ''All''),
             (''value'', jstr ''$__all'')]),
           (''datasource'', jstr ''Prometheus''),
           (''definition'', jstr ''label_values(up{job="solr-exporter"}, instance)''),
           (''hide'', JInt 0),
           (''includeAll'', JBool True),
           (''label'', jstr ''Instance''),
           (''multi'', JBool True),
           (''name'', jstr ''instance''),
           (''options'', JArr []),
           (''query'', jobj [
             (''query'', jstr ''label_values(up{job="solr-exporter"}, instance)''),
             (''refId'', jstr ''StandardVariableQuery'')]),
           (''refresh'', JInt 1),
           (''regex'', jstr ''''),
           (''skipUrlSync'', JBool False),
           (''sort'', JInt 1),
           (''type'', jstr ''query'')],
         jobj [
           (''current'', jobj [
             (''selected'', JBool False),
             (''text'', jstr ''solr-exporter''),
             (''value'', jstr ''solr-exporter'')]),
           (''datasource'', jstr ''Prometheus''),
           (''definition'', jstr ''label_values(up, job)''),
           (''hide'', JInt 0),
           (''includeAll'', JBool False),
           (''label'', jstr ''Job''),
           (''multi'', JBool False),
           (''name'', jstr ''job''),
           (''options'', JArr []),
           (''query'', jobj [
             (''query'', jstr ''label_values(up, job)''),
             (''refId'', jstr ''StandardVariableQuery'')]),
           (''refresh'', JInt 1),
           (''regex'', jstr ''.*solr.*''),
           (''skipUrlSync'', JBool False),
           (''sort'', JInt 0),
           (''type'', jstr ''query'')],
         jobj [
           (''allValue'', jstr ''''),
           (''current'', jobj [
             (''selected'', JBool False),
             (''text'', jstr ''All''),
             (''value'', jstr ''$__all'')]),
           (''datasource'', jstr ''Prometheus''),
           (''definition'', jstr ''label_values(solr_metrics_core_query_requests_total, core)''),
           (''hide'', JInt 0),
           (''includeAll'', JBool True),
           (''label'', jstr ''Core''),
           (''multi'', JBool True),
           (''name'', jstr ''core''),
           (''options'', JArr []),
           (''query'', jobj [
             (''query'', jstr ''label_values(solr_metrics_core_query_requests_total, core)''),
             (''refId'', jstr ''StandardVariableQuery'')]),
           (''refresh'', JInt 1),
           (''regex'', jstr ''''),
           (''skipUrlSync'', JBool False),
           (''sort'', JInt 1),
           (''type'', jstr ''query'')]])]\<close>

text \<open>The first rewriting of a query: the job and instance filters.\<close>

definition rewrite_job :: "json \<Rightarrow> error + json" where
  \<open>rewrite_job expr =
     (case py_contains (ascii ''instance='') expr of
        Inl e \<Rightarrow> Inl e
      | Inr has_instance \<Rightarrow>
          (case (if has_instance then Inr False
                 else py_contains (ascii ''job="solr-exporter"'') expr) of
             Inl e \<Rightarrow> Inl e
           | Inr True \<Rightarrow>
               py_replace expr (ascii ''job="solr-exporter"'')
                 (ascii ''job="$job",instance=~"$instance"'')
           | Inr False \<Rightarrow>
               (case py_contains (ascii ''job="solr-exporter"'') expr of
                  Inl e \<Rightarrow> Inl e
                | Inr True \<Rightarrow> py_replace expr (ascii ''job="solr-exporter"'') (ascii ''job="$job"'')
                | Inr False \<Rightarrow> Inr expr)))\<close>

text \<open>The second rewriting: the core filter.\<close>

definition rewrite_core :: "json \<Rightarrow> error + json" where
  \<open>rewrite_core expr =
     (case py_contains (ascii ''core='') expr of
        Inl e \<Rightarrow> Inl e
      | Inr True \<Rightarrow> Inr expr
      | Inr False \<Rightarrow>
          (case py_contains (ascii ''solr_metrics_core'') expr of
             Inl e \<Rightarrow> Inl e
           | Inr False \<Rightarrow> Inr expr
           | Inr True \<Rightarrow>
               (case py_contains (ascii ''core="'') expr of
                  Inl e \<Rightarrow> Inl e
                | Inr True \<Rightarrow>
                    (case expr of
                       JStr s \<Rightarrow> Inr (JStr (sub_core_from 0 s))
                     | _ \<Rightarrow> Inl TypeError)
                | Inr False \<Rightarrow>
                    (case py_contains (ascii ''}'') expr of
                       Inl e \<Rightarrow> Inl e
                     | Inr True \<Rightarrow> py_replace expr (ascii ''}'') (ascii '',core=~"$core"}'')
                     | Inr False \<Rightarrow> Inr expr))))\<close>

text \<open>The body of the loop over the targets of a panel, and of the loop over the panels.
  A target or panel that is changed is a dictionary; the loops change it in place.\<close>

definition rewrite_target :: "json \<Rightarrow> error + json" where
  "rewrite_target target =
     (case py_contains (ascii ''expr'') target of
        Inl e \<Rightarrow> Inl e
      | Inr False \<Rightarrow> Inr target
      | Inr True \<Rightarrow>
          (case py_index target (ascii ''expr'') of
             Inl e \<Rightarrow> Inl e
           | Inr expr \<Rightarrow>
               (case rewrite_job expr of
                  Inl e \<Rightarrow> Inl e
                | Inr expr1 \<Rightarrow>
                    (case rewrite_core expr1 of
                       Inl e \<Rightarrow> Inl e
                     | Inr expr2 \<Rightarrow>
                         (case target of
                            JObj kvs \<Rightarrow> Inr (JObj (py_setitem kvs (ascii ''expr'') expr2))
                          | _ \<Rightarrow> Inl TypeError)))))"

text \<open>Running a loop body over the items a value yields. Only the elements of a list
  can have been changed by the body; the keys of a dictionary and the characters of a
  string are strings.\<close>

definition for_each :: "(json \<Rightarrow> error + json) \<Rightarrow> json \<Rightarrow> error + json" where
  "for_each loop_body container =
     (case py_iter container of
        Inl e \<Rightarrow> Inl e
      | Inr items \<Rightarrow>
          (case comprehension loop_body items of
             Inl e \<Rightarrow> Inl e
           | Inr changed \<Rightarrow> (case container of JArr _ \<Rightarrow> Inr (JArr changed) | _ \<Rightarrow> Inr container)))"

definition rewrite_panel :: "json \<Rightarrow> error + json" where
  "rewrite_panel panel =
     (case py_contains (ascii ''targets'') panel of
        Inl e \<Rightarrow> Inl e
      | Inr False \<Rightarrow> Inr panel
      | Inr True \<Rightarrow>
          (case py_index panel (ascii ''targets'') of
             Inl e \<Rightarrow> Inl e
           | Inr targets \<Rightarrow>
               (case for_each rewrite_target targets of
                  Inl e \<Rightarrow> Inl e
                | Inr targets' \<Rightarrow>
                    (case panel of
                       JObj kvs \<Rightarrow> Inr (JObj (py_setitem kvs (ascii ''targets'') targets'))
                     | _ \<Rightarrow> Inl TypeError))))"

text \<open>The script, from the dashboard it reads to the dashboard it writes.\<close>

definition add_grafana_templating :: "json \<Rightarrow> error + json" where
  "add_grafana_templating dashboard =
     (case dashboard of
        JObj kvs \<Rightarrow>
          (let kvs1 = py_setitem kvs (ascii ''templating'') templating in
           case for_each rewrite_panel
                  (case map_of kvs1 (ascii ''panels'') of None \<Rightarrow> JArr [] | Some ps \<Rightarrow> ps) of
             Inl e \<Rightarrow> Inl e
           | Inr panels' \<Rightarrow>
               (let kvs2 = (if map_of kvs1 (ascii ''panels'') = None then kvs1
                            else py_setitem kvs1 (ascii ''panels'') panels');
                    kvs3 = py_setitem kvs2 (ascii ''title'')
                             (jstr ''Solr Monitoring (Multi-Instance)'');
                    kvs4 = py_setitem kvs3 (ascii ''description'')
                             (jstr ''Solr performance monitoring dashboard with support for multiple instances. Use template variables to filter by instance, job, and core.'')
                in case py_get (JObj kvs4) (ascii ''version'') (JInt 0) of
                     Inl e \<Rightarrow> Inl e
                   | Inr v \<Rightarrow>
                       (case py_add v (JInt 1) of
                          Inl e \<Rightarrow> Inl e
                        | Inr version \<Rightarrow> Inr (JObj (py_setitem kvs4 (ascii ''version'') version)))))
      | _ \<Rightarrow> Inl TypeError)"

text \<open>Running a script a second time, on the dashboard its first run wrote.\<close>

definition run_again :: "(json \<Rightarrow> error + json) \<Rightarrow> json \<Rightarrow> error + json" where
  "run_again script d = (case script d of Inl e \<Rightarrow> Inl e | Inr d1 \<Rightarrow> script d1)"

section \<open>Concrete inputs\<close>

text \<open>A store file with one credential, for the user \<^verbatim>\<open>solr\<close>.\<close>

definition solr_store :: "str \<Rightarrow> filesystem" where
  "solr_store record =
     store_with (Document (jobj [(''authentication'',
        jobj [(''credentials'', jobj [(''solr'', JStr record)])])]))"

text \<open>The command line \<^verbatim>\<open>hash-password.py secret123\<close>.\<close>

definition hash_args :: args where
  "hash_args = \<lparr>arg_password = Some (ascii ''secret123''), arg_verify = None, arg_reuse = None,
      arg_salt_bytes = 32\<rparr>"

text \<open>What \<^verbatim>\<open>check_solr\<close> returns for a ping that answers \<^verbatim>\<open>{"status": "OK"}\<close>.\<close>

definition solr_ok :: json where
  "solr_ok = check_solr (Response (jobj [(''status'', jstr ''OK'')]))"

text \<open>A dashboard with one panel.\<close>

definition small_panel :: json where
  \<open>small_panel =
     jobj [
       (''id'', JInt 3),
       (''gridPos'', jobj [(''h'', JInt 8), (''w'', JInt 12), (''x'', JInt 0), (''y'', JInt 0)]),
       (''title'', jstr ''Requests''),
       (''targets'', JArr [
         jobj [(''expr'', jstr ''rate(solr_metrics_core_query_requests_total{job="solr-exporter"}[5m])'')]])]\<close>

definition float_dashboard :: json where
  "float_dashboard =
     jobj [(''title'', jstr ''Solr Monitoring''), (''panels'', JArr []),
           (''version'', JFloat 0x4341C37937E08000)]"

definition small_dashboard :: json where
  "small_dashboard =
     jobj [(''title'', jstr ''Solr Monitoring''), (''panels'', JArr [small_panel]),
           (''version'', JInt 1)]"

section \<open>Properties of the library functions\<close>

lemma below_64I:
  assumes "\<And>n. bit v n \<Longrightarrow> n < 6" shows "(v::byte) < 64"
proof -
  have "v AND mask 6 = v"
    by (rule bit_word_eqI) (auto simp: bit_simps dest: assms)
  moreover have "v AND mask 6 < 2 ^ 6"
    by (rule and_mask_less_size) (simp add: word_size)
  ultimately show ?thesis by simp
qed

lemma mask2_numeral: "(3::byte) = mask 2" by (simp add: mask_eq_exp_minus_1)
lemma mask4_numeral: "(15::byte) = mask 4" by (simp add: mask_eq_exp_minus_1)
lemma mask6_numeral: "(63::byte) = mask 6" by (simp add: mask_eq_exp_minus_1)

lemma sextet1_bound: "drop_bit 2 (a::byte) < 64"
  by (rule below_64I) (auto simp: bit_simps dest: bit_imp_le_length)
lemma sextet2_bound: "push_bit 4 ((a::byte) AND 3) OR drop_bit 4 (b::byte) < 64"
  unfolding mask2_numeral by (rule below_64I) (auto simp: bit_simps dest: bit_imp_le_length)
lemma sextet2_last_bound: "push_bit 4 ((a::byte) AND 3) < 64"
  unfolding mask2_numeral by (rule below_64I) (auto simp: bit_simps dest: bit_imp_le_length)
lemma sextet3_bound: "push_bit 2 ((b::byte) AND 15) OR drop_bit 6 (c::byte) < 64"
  unfolding mask4_numeral by (rule below_64I) (auto simp: bit_simps dest: bit_imp_le_length)
lemma sextet3_last_bound: "push_bit 2 ((b::byte) AND 15) < 64"
  unfolding mask4_numeral by (rule below_64I) (auto simp: bit_simps dest: bit_imp_le_length)
lemma sextet4_bound: "(c::byte) AND 63 < 64"
  unfolding mask6_numeral by (rule below_64I) (auto simp: bit_simps dest: bit_imp_le_length)

lemma suc_suc_diff: "2 \<le> n \<Longrightarrow> Suc (Suc (n - 2)) = n" by simp
lemma four_plus_diff: "4 \<le> n \<Longrightarrow> 4 + (n - 4) = (n::nat)" by simp

lemma byte1_rebuilt: "push_bit 2 (drop_bit 2 (a::byte)) OR drop_bit 4 (push_bit 4 (a AND 3) OR drop_bit 4 (b::byte)) = a"
  unfolding mask2_numeral
  apply (rule bit_word_eqI)
  subgoal for n
    by (cases "2 \<le> n"; cases "4 \<le> n"; auto simp: bit_simps suc_suc_diff four_plus_diff dest: bit_imp_le_length)
  done

lemma byte1_rebuilt_last: "push_bit 2 (drop_bit 2 (a::byte)) OR drop_bit 4 (push_bit 4 (a AND 3)) = a"
  unfolding mask2_numeral
  apply (rule bit_word_eqI)
  subgoal for n
    by (cases "2 \<le> n"; cases "4 \<le> n"; auto simp: bit_simps suc_suc_diff four_plus_diff dest: bit_imp_le_length)
  done

lemma byte2_rebuilt: "push_bit 4 ((push_bit 4 ((a::byte) AND 3) OR drop_bit 4 (b::byte)) AND 0x0f) OR drop_bit 2 (push_bit 2 (b AND 15) OR drop_bit 6 (c::byte)) = b"
  unfolding mask2_numeral mask4_numeral
  apply (rule bit_word_eqI)
  subgoal for n
    by (cases "2 \<le> n"; cases "4 \<le> n"; auto simp: bit_simps suc_suc_diff four_plus_diff dest: bit_imp_le_length)
  done

lemma byte2_rebuilt_last: "push_bit 4 ((push_bit 4 ((a::byte) AND 3) OR drop_bit 4 (b::byte)) AND 0x0f) OR drop_bit 2 (push_bit 2 (b AND 15)) = b"
  unfolding mask2_numeral mask4_numeral
  apply (rule bit_word_eqI)
  subgoal for n
    by (cases "2 \<le> n"; cases "4 \<le> n"; auto simp: bit_simps suc_suc_diff four_plus_diff dest: bit_imp_le_length)
  done

lemma byte3_rebuilt: "push_bit 6 ((push_bit 2 ((b::byte) AND 15) OR drop_bit 6 (c::byte)) AND 0x03) OR (c AND 63) = c"
  unfolding mask2_numeral mask4_numeral mask6_numeral
  apply (rule bit_word_eqI)
  apply (auto simp: bit_simps dest: bit_imp_le_length)
  done




lemma sextets_mem: "n < 64 \<Longrightarrow> n \<in> set sextets"
proof -
  assume "n < 64"
  then have "n \<in> set [0..<64]" by simp
  also have "[0..<64] = sextets"
    unfolding sextets_def by (simp add: upt_conv_Cons)
  finally show ?thesis .
qed

lemma a2b_b2a_all:
  "list_all (\<lambda>n. table_a2b_base64 (table_b2a_base64 ! n) = Some (of_nat n)) sextets"
  by (simp add: sextets_def table_b2a_base64_def ascii_def table_a2b_base64_def)

lemma b2a_ascii_all:
  "list_all (\<lambda>n. table_b2a_base64 ! n < 128 \<and> table_b2a_base64 ! n \<noteq> 61) sextets"
  by (simp add: sextets_def table_b2a_base64_def ascii_def)

lemma b2a_nospace_all:
  "list_all (\<lambda>n. \<not> py_isspace (table_b2a_base64 ! n)) sextets"
  by (simp add: sextets_def table_b2a_base64_def ascii_def py_isspace_def)


lemma b2a_char_props:
  assumes "v < 64"
  shows "table_a2b_base64 (b2a_char v) = Some v" and "b2a_char v < 128"
    and "b2a_char v \<noteq> 61" and "\<not> py_isspace (b2a_char v)"
proof -
  from assms have "unat v < 64" by (simp add: word_less_nat_alt)
  then have m: "unat v \<in> set sextets" by (rule sextets_mem)
  from m a2b_b2a_all have "table_a2b_base64 (table_b2a_base64 ! unat v) = Some (of_nat (unat v))"
    unfolding list_all_iff by blast
  then show "table_a2b_base64 (b2a_char v) = Some v" by (simp add: b2a_char_def)
  from m b2a_ascii_all show "b2a_char v < 128" "b2a_char v \<noteq> 61"
    unfolding list_all_iff b2a_char_def by blast+
  from m b2a_nospace_all show "\<not> py_isspace (b2a_char v)"
    unfolding list_all_iff b2a_char_def by blast
qed

lemma a2b_base64_q0:
  "v < 64 \<Longrightarrow> a2b_base64 0 leftchar pads bin_data (b2a_char v # rest) = a2b_base64 1 v 0 bin_data rest"
  using b2a_char_props(1,3)[of v] by simp

lemma a2b_base64_q1:
  "v < 64 \<Longrightarrow> a2b_base64 1 leftchar pads bin_data (b2a_char v # rest) =
     a2b_base64 2 (v AND 0x0f) 0 (bin_data @ [push_bit 2 leftchar OR drop_bit 4 v]) rest"
  using b2a_char_props(1,3)[of v] by simp

lemma a2b_base64_q2:
  "v < 64 \<Longrightarrow> a2b_base64 2 leftchar pads bin_data (b2a_char v # rest) =
     a2b_base64 3 (v AND 0x03) 0 (bin_data @ [push_bit 4 leftchar OR drop_bit 2 v]) rest"
  using b2a_char_props(1,3)[of v] by simp

lemma a2b_base64_q3:
  "v < 64 \<Longrightarrow> a2b_base64 3 leftchar pads bin_data (b2a_char v # rest) =
     a2b_base64 0 0 0 (bin_data @ [push_bit 6 leftchar OR v]) rest"
  using b2a_char_props(1,3)[of v] by simp

lemma a2b_base64_pad2: "a2b_base64 2 leftchar 0 bin_data [61, 61] = Inr bin_data"
  by simp

lemma a2b_base64_pad1: "a2b_base64 3 leftchar 0 bin_data [61] = Inr bin_data"
  by simp

lemma a2b_base64_b64encode:
  "a2b_base64 0 0 0 bin_data (b64encode s) = Inr (bin_data @ s)"
proof (induction s arbitrary: bin_data rule: b64encode.induct)
  case 1
  show ?case by simp
next
  case (2 a)
  show ?case
    by (simp only: b64encode.simps a2b_base64_q0[OF sextet1_bound] a2b_base64_q1[OF sextet2_last_bound] byte1_rebuilt_last
        a2b_base64_pad2)
next
  case (3 a b)
  show ?case
    by (simp only: b64encode.simps a2b_base64_q0[OF sextet1_bound] a2b_base64_q1[OF sextet2_bound]
        a2b_base64_q2[OF sextet3_last_bound] byte1_rebuilt byte2_rebuilt_last a2b_base64_pad1 append_Cons append_Nil append_assoc)
next
  case (4 a b c rest)
  show ?case
    by (simp only: b64encode.simps a2b_base64_q0[OF sextet1_bound] a2b_base64_q1[OF sextet2_bound]
        a2b_base64_q2[OF sextet3_bound] a2b_base64_q3[OF sextet4_bound] byte1_rebuilt byte2_rebuilt byte3_rebuilt "4.IH"
        append_Cons append_Nil append_assoc)
qed

lemma b64encode_chars:
  "c \<in> set (b64encode s) \<Longrightarrow> c < 128 \<and> \<not> py_isspace c"
proof (induction s rule: b64encode.induct)
  case 1
  then show ?case by simp
next
  case (2 a)
  have "\<not> py_isspace 61" "(61::nat) < 128" by (simp_all add: py_isspace_def)
  with 2 show ?case
    using b2a_char_props(2,4)[OF sextet1_bound[of a]] b2a_char_props(2,4)[OF sextet2_last_bound[of a]]
    by (auto simp only: b64encode.simps set_simps insert_iff empty_iff)
next
  case (3 a b)
  have "\<not> py_isspace 61" "(61::nat) < 128" by (simp_all add: py_isspace_def)
  with 3 show ?case
    using b2a_char_props(2,4)[OF sextet1_bound[of a]] b2a_char_props(2,4)[OF sextet2_bound[of a b]]
      b2a_char_props(2,4)[OF sextet3_last_bound[of b]]
    by (auto simp only: b64encode.simps set_simps insert_iff empty_iff)
next
  case (4 a b c rest)
  then show ?case
    using b2a_char_props(2,4)[OF sextet1_bound[of a]] b2a_char_props(2,4)[OF sextet2_bound[of a b]]
      b2a_char_props(2,4)[OF sextet3_bound[of b c]] b2a_char_props(2,4)[OF sextet4_bound[of c]]
    by (auto simp only: b64encode.simps set_simps set_append Un_iff insert_iff empty_iff)
qed

lemma b64decode_b64encode: "b64decode (b64encode s) = Inr s"
proof -
  have "\<forall>c \<in> set (b64encode s). \<not> 128 \<le> c"
    using b64encode_chars[of _ s] by (simp add: not_le)
  then have "\<not> list_ex (\<lambda>c. c \<ge> 128) (b64encode s)"
    unfolding list_ex_iff by blast
  then show ?thesis by (simp add: b64decode_def a2b_base64_b64encode)
qed

lemma b64encode_eq_Nil: "b64encode s = [] \<longleftrightarrow> s = []"
  by (induction s rule: b64encode.induct) simp_all

lemma b64encode_length: "length (b64encode s) = 4 * ((length s + 2) div 3)"
  by (induction s rule: b64encode.induct) (simp_all, arith)

lemma round256_length: "length s = 8 \<Longrightarrow> length (round256 s kw) = 8"
  by (cases "(s, kw)" rule: round256.cases) (simp_all add: Let_def)

lemma foldl_round256_length: "length s = 8 \<Longrightarrow> length (foldl round256 s kws) = 8"
  by (induction kws arbitrary: s) (simp_all add: round256_length)

lemma compress_length: "length hs = 8 \<Longrightarrow> length (compress hs block) = 8"
  by (simp add: compress_def foldl_round256_length)

lemma blocks_length: "length hs = 8 \<Longrightarrow> length (blocks hs n m) = 8"
  by (induction n arbitrary: hs m) (simp_all add: compress_length)

lemma concat_word_bytes_length: "length (concat (map word_bytes ws)) = 4 * length ws"
  by (induction ws) (simp_all add: word_bytes_def)

lemma sha256_length: "length (sha256 m) = 32"
  by (simp add: sha256_def Let_def concat_word_bytes_length blocks_length sha256_h0_def)

lemma split_space_not_Nil: "split_space s \<noteq> []"
  by (induction s) (auto split: list.splits)

lemma split_space_no_space: "32 \<notin> set s \<Longrightarrow> split_space s = [s]"
  by (induction s) auto

lemma split_space_append:
  "32 \<notin> set x \<Longrightarrow> split_space (x @ 32 # y) = x # split_space y"
  by (induction x) auto

lemma split_space_length: "length (split_space s) = Suc (count_list s 32)"
  by (induction s) (auto split: list.splits simp: split_space_not_Nil)

lemma py_strip_id:
  assumes "s \<noteq> []" "\<not> py_isspace (hd s)" "\<not> py_isspace (last s)"
  shows "py_strip s = s"
proof -
  from assms(1,2) have 1: "dropWhile py_isspace s = s" by (cases s) auto
  from assms(1,3) have 2: "dropWhile py_isspace (rev s) = rev s"
    by (cases "rev s") (auto simp: hd_rev[symmetric])
  show ?thesis by (simp add: py_strip_def 1 2)
qed

lemma py_isspace_32: "py_isspace 32" by (simp add: py_isspace_def)

lemma b64encode_no_space: "32 \<notin> set (b64encode s)"
  using b64encode_chars[of 32 s] py_isspace_32 by blast

lemma hash_password_Some:
  "hash_password password (Some salt) ent =
     (case utf8_encode password of
        Inl e \<Rightarrow> (Inl e, ent)
      | Inr pb \<Rightarrow> (Inr (encoded_hash_record salt pb), ent))"
  by (simp add: hash_password_def encoded_hash_record_def ascii_def Let_def split: sum.splits)

lemma hash_password_None:
  "hash_password password None ent =
     (case utf8_encode password of
        Inl e \<Rightarrow> (Inl e, \<lambda>i. ent (i + 32))
      | Inr pb \<Rightarrow> (Inr (encoded_hash_record (map ent [0..<32]) pb), \<lambda>i. ent (i + 32)))"
  by (simp add: hash_password_def encoded_hash_record_def ascii_def generate_random_salt_def token_bytes_def Let_def split: sum.splits)

lemma digest_b64_not_Nil: "b64encode (sha256 m) \<noteq> []"
  using sha256_length[of m] by (auto simp: b64encode_eq_Nil)

lemma split_space_record:
  "split_space (encoded_hash_record salt pb) = [b64encode (sha256 (sha256 (salt @ pb))), b64encode salt]"
  by (simp add: encoded_hash_record_def ascii_def split_space_append split_space_no_space b64encode_no_space)

lemma py_strip_record:
  assumes "salt \<noteq> []"
  shows "py_strip (encoded_hash_record salt pb) = encoded_hash_record salt pb"
proof (rule py_strip_id)
  show "encoded_hash_record salt pb \<noteq> []" by (simp add: encoded_hash_record_def ascii_def)
  have "hd (encoded_hash_record salt pb) \<in> set (b64encode (sha256 (sha256 (salt @ pb))))"
    using digest_b64_not_Nil by (simp add: encoded_hash_record_def ascii_def)
  then show "\<not> py_isspace (hd (encoded_hash_record salt pb))"
    using b64encode_chars by blast
  from assms have "b64encode salt \<noteq> []" by (simp add: b64encode_eq_Nil)
  then have "last (encoded_hash_record salt pb) \<in> set (b64encode salt)"
    by (simp add: encoded_hash_record_def ascii_def)
  then show "\<not> py_isspace (last (encoded_hash_record salt pb))"
    using b64encode_chars by blast
qed

lemma verify_password_record:
  assumes "salt \<noteq> []" "utf8_encode password = Inr pb"
  shows "verify_password password (JStr (encoded_hash_record salt pb)) ent = (True, ent)"
  using assms
  by (simp add: verify_password_def verify_password_try_def py_strip_record split_space_record
      b64decode_b64encode hash_password_Some)

lemma dropWhile_none: "\<forall>c \<in> set xs. \<not> P c \<Longrightarrow> dropWhile P xs = xs"
  by (cases xs) auto

lemma py_strip_trailing_space:
  assumes "\<forall>c \<in> set d. \<not> py_isspace c"
  shows "py_strip (d @ [32]) = d"
proof -
  have 1: "dropWhile py_isspace (d @ [32]) = (if d = [] then [] else d @ [32])"
    using assms by (cases d) (auto simp: py_isspace_32)
  have 2: "dropWhile py_isspace (rev d) = rev d"
    using assms by (intro dropWhile_none) simp
  show ?thesis
    by (simp add: py_strip_def 1 2 py_isspace_32)
qed

lemma verify_password_empty_salt:
  "verify_password password (JStr (encoded_hash_record [] pb)) ent = (False, ent)"
proof -
  let ?d = "b64encode (sha256 (sha256 pb))"
  have "\<forall>c \<in> set ?d. \<not> py_isspace c" using b64encode_chars by blast
  then have "py_strip (encoded_hash_record [] pb) = ?d"
    by (simp add: encoded_hash_record_def ascii_def py_strip_trailing_space)
  then show ?thesis
    by (simp add: verify_password_def verify_password_try_def split_space_no_space
        b64encode_no_space)
qed

lemma verify_password_try_True:
  assumes "verify_password_try password (JStr R) ent = (Inr True, ent')"
  shows "\<exists>salt pb. utf8_encode password = Inr pb \<and> R = encoded_hash_record salt pb \<and> ent' = ent"
  using assms
  by (auto simp: verify_password_try_def Let_def hash_password_Some
      split: if_splits sum.splits prod.splits)

lemma verify_password_keeps_entropy: "snd (verify_password password h ent) = ent"
  by (cases h)
    (auto simp: verify_password_def verify_password_try_def Let_def hash_password_Some
      split: if_splits sum.splits prod.splits)


section \<open>Properties of the password hasher\<close>

lemma utf8_encode_secret:
  "utf8_encode (ascii ''secret123'') = Inr [115, 101, 99, 114, 101, 116, 49, 50, 51]"
  by (simp add: ascii_def utf8_char_def)

lemma verify_password_entropy_free:
  "fst (verify_password password h ent) = fst (verify_password password h ent2)"
  by (cases h)
    (auto simp: verify_password_def verify_password_try_def Let_def hash_password_Some
      split: if_splits sum.splits prod.splits)

text \<open>
  Claim C1. For a password that encodes to the bytes \<open>pb\<close> and any salt \<open>S\<close>,
  \<^verbatim>\<open>hash_password\<close> returns the record of the specification: the base64 of
  SHA-256 applied twice to salt and password bytes, one space, the base64 of the salt.
  Splitting the record at spaces gives exactly the digest token and the salt token, in
  this order; the digest token has 44 characters; the salt token decodes to the salt;
  and the result does not depend on the state of the randomness.
\<close>

theorem hash_password_format:
  assumes "utf8_encode P = Inr pb"
  shows "hash_password P (Some S) ent = (Inr (encoded_hash_record S pb), ent)
       \<and> split_space (encoded_hash_record S pb)
           = [b64encode (sha256 (sha256 (S @ pb))), b64encode S]
       \<and> length (b64encode (sha256 (sha256 (S @ pb)))) = 44
       \<and> b64decode (b64encode S) = Inr S
       \<and> fst (hash_password P (Some S) ent2) = fst (hash_password P (Some S) ent)"
  using assms
  by (simp add: hash_password_Some split_space_record b64encode_length sha256_length
      b64decode_b64encode)

text \<open>The scenario of the specification: password \<^verbatim>\<open>secret123\<close>, 32 zero bytes of salt.\<close>

theorem hash_password_format_witness:
  "utf8_encode (ascii ''secret123'') = Inr [115, 101, 99, 114, 101, 116, 49, 50, 51]
   \<and> hash_password (ascii ''secret123'') (Some (replicate 32 0)) zero_entropy
       = (Inr (encoded_hash_record (replicate 32 0) [115, 101, 99, 114, 101, 116, 49, 50, 51]),
          zero_entropy)
   \<and> length (b64encode (sha256 (sha256
        (replicate 32 0 @ [115, 101, 99, 114, 101, 116, 49, 50, 51])))) = 44"
  using hash_password_format [OF utf8_encode_secret, of "replicate 32 0" zero_entropy zero_entropy]
    utf8_encode_secret
  by simp

text \<open>
  Claim C2, amended. For a password that encodes and a salt that is omitted (32 fresh
  random bytes are drawn) or given and not empty, hashing returns a record and
  \<^verbatim>\<open>verify_password\<close> accepts it.
\<close>

theorem verify_round_trip:
  assumes "utf8_encode P = Inr pb" and "salt \<noteq> Some []"
  shows "\<exists>R ent'. hash_password P salt ent = (Inr R, ent')
           \<and> verify_password P (JStr R) ent2 = (True, ent2)"
proof (cases salt)
  case None
  have "map ent [0..<32] \<noteq> []" by simp
  with assms(1) None show ?thesis
    by (simp add: hash_password_None verify_password_record)
next
  case (Some S)
  with assms show ?thesis
    by (simp add: hash_password_Some verify_password_record)
qed

theorem verify_round_trip_witness:
  "utf8_encode (ascii ''secret123'') = Inr [115, 101, 99, 114, 101, 116, 49, 50, 51]
   \<and> (None :: bytes option) \<noteq> Some []
   \<and> (\<exists>R ent'. hash_password (ascii ''secret123'') None counting_entropy = (Inr R, ent')
           \<and> verify_password (ascii ''secret123'') (JStr R) zero_entropy = (True, zero_entropy))"
  using verify_round_trip [OF utf8_encode_secret, of None counting_entropy zero_entropy]
    utf8_encode_secret
  by simp

text \<open>
  Claim C2 as stated fails for the empty salt: the record ends with the space,
  \<^verbatim>\<open>strip\<close> removes it, a single token is left and verification answers \<^verbatim>\<open>False\<close>.
\<close>

theorem verify_empty_salt_counterexample:
  "hash_password (ascii ''secret123'') (Some []) zero_entropy
     = (Inr (encoded_hash_record [] [115, 101, 99, 114, 101, 116, 49, 50, 51]), zero_entropy)
   \<and> verify_password (ascii ''secret123'')
        (JStr (encoded_hash_record [] [115, 101, 99, 114, 101, 116, 49, 50, 51])) zero_entropy
     = (False, zero_entropy)"
  by (simp add: hash_password_Some utf8_encode_secret verify_password_empty_salt)

text \<open>
  Claim C3. \<^verbatim>\<open>verify_password\<close> returns a boolean for every password and every string,
  and consumes no randomness. It is \<^verbatim>\<open>True\<close> exactly when the body of its \<^verbatim>\<open>try\<close>
  block returns \<^verbatim>\<open>True\<close>: every exception gives \<^verbatim>\<open>False\<close>. It is \<^verbatim>\<open>False\<close> when the
  string has not exactly two tokens, split as it is or after \<^verbatim>\<open>strip\<close>; when the salt
  token does not decode; and when the recomputed record differs from the string.
  \<^verbatim>\<open>True\<close> means the string is the record recomputed with the decoded salt.
\<close>

theorem verify_password_total:
  "snd (verify_password P (JStr R) ent) = ent
   \<and> (fst (verify_password P (JStr R) ent)
        \<longleftrightarrow> fst (verify_password_try P (JStr R) ent) = Inr True)
   \<and> (length (split_space R) \<noteq> 2 \<longrightarrow> \<not> fst (verify_password P (JStr R) ent))
   \<and> (length (split_space (py_strip R)) \<noteq> 2 \<longrightarrow> \<not> fst (verify_password P (JStr R) ent))
   \<and> ((\<exists>e. b64decode (split_space (py_strip R) ! 1) = Inl e)
        \<longrightarrow> \<not> fst (verify_password P (JStr R) ent))
   \<and> ((\<forall>salt. b64decode (split_space (py_strip R) ! 1) = Inr salt
          \<longrightarrow> fst (hash_password P (Some salt) ent) \<noteq> Inr R)
        \<longrightarrow> \<not> fst (verify_password P (JStr R) ent))
   \<and> (fst (verify_password P (JStr R) ent)
        \<longrightarrow> (\<exists>salt. b64decode (split_space (py_strip R) ! 1) = Inr salt
               \<and> fst (hash_password P (Some salt) ent) = Inr R))"
proof -
  have 1: "snd (verify_password P (JStr R) ent) = ent"
    by (rule verify_password_keeps_entropy)
  have 2: "fst (verify_password P (JStr R) ent)
        \<longleftrightarrow> fst (verify_password_try P (JStr R) ent) = Inr True"
    by (auto simp: verify_password_def split: prod.splits sum.splits)
  have 7: "fst (verify_password P (JStr R) ent)
        \<longrightarrow> (\<exists>salt. b64decode (split_space (py_strip R) ! 1) = Inr salt
               \<and> fst (hash_password P (Some salt) ent) = Inr R)"
    unfolding 2
    by (auto simp: verify_password_try_def Let_def split: if_splits sum.splits prod.splits)
  have 4: "length (split_space (py_strip R)) \<noteq> 2 \<longrightarrow> \<not> fst (verify_password P (JStr R) ent)"
    unfolding 2 by (auto simp: verify_password_try_def Let_def)
  have 3: "length (split_space R) \<noteq> 2 \<longrightarrow> \<not> fst (verify_password P (JStr R) ent)"
  proof (intro impI notI)
    assume len: "length (split_space R) \<noteq> 2" and v: "fst (verify_password P (JStr R) ent)"
    from v 2 obtain ent' where "verify_password_try P (JStr R) ent = (Inr True, ent')"
      by (cases "verify_password_try P (JStr R) ent") auto
    then obtain salt pb where "R = encoded_hash_record salt pb"
      using verify_password_try_True by blast
    then have "length (split_space R) = 2" by (simp add: split_space_record)
    with len show False by simp
  qed
  from 7 have 5: "(\<exists>e. b64decode (split_space (py_strip R) ! 1) = Inl e)
        \<longrightarrow> \<not> fst (verify_password P (JStr R) ent)" by auto
  from 7 have 6: "(\<forall>salt. b64decode (split_space (py_strip R) ! 1) = Inr salt
          \<longrightarrow> fst (hash_password P (Some salt) ent) \<noteq> Inr R)
        \<longrightarrow> \<not> fst (verify_password P (JStr R) ent)" by auto
  from 1 2 3 4 5 6 7 show ?thesis by blast
qed

theorem verify_password_total_witness:
  "length (split_space (ascii ''a b c'')) \<noteq> 2
   \<and> \<not> fst (verify_password (ascii ''secret123'') (JStr (ascii ''a b c'')) zero_entropy)
   \<and> snd (verify_password (ascii ''secret123'') (JStr (ascii ''a b c'')) zero_entropy)
       = zero_entropy"
proof -
  have "length (split_space (ascii ''a b c'')) \<noteq> 2" by (simp add: ascii_def)
  then show ?thesis
    using verify_password_total [of "ascii ''secret123''" "ascii ''a b c''" zero_entropy]
    by blast
qed


lemma encoded_hash_record_inj:
  assumes "encoded_hash_record s1 pb1 = encoded_hash_record s2 pb2"
  shows "s1 = s2"
proof -
  from assms have "split_space (encoded_hash_record s1 pb1) = split_space (encoded_hash_record s2 pb2)"
    by simp
  then have "b64encode s1 = b64encode s2" by (simp add: split_space_record)
  then have "b64decode (b64encode s1) = b64decode (b64encode s2)" by simp
  then show ?thesis by (simp add: b64decode_b64encode)
qed

lemma verify_password_falsy: "\<not> truthy h \<Longrightarrow> \<not> fst (verify_password pw h ent)"
  by (cases h) (simp_all add: verify_password_def verify_password_try_def py_strip_def)

lemma verify_password_snd: "verify_password pw h ent = (fst (verify_password pw h ent), ent)"
  using verify_password_keeps_entropy[of pw h ent] by (cases "verify_password pw h ent") simp

lemma load_existing_hashes_no_store:
  "fs path \<in> {Absent, Unreadable, Malformed} \<Longrightarrow> load_existing_hashes path fs = Inr (JObj [])"
  by (auto simp: load_existing_hashes_def)

lemma verify_and_reuse_new:
  assumes "load_existing_hashes path fs = Inr (JObj creds)"
    and "map_of creds u = None \<or> (\<exists>h. map_of creds u = Some h \<and> \<not> fst (verify_password pw h ent))"
  shows "verify_and_reuse u pw path fs ent =
     (case hash_password pw None ent of
        (Inl e, ent') \<Rightarrow> (Inl e, ent')
      | (Inr r, ent') \<Rightarrow> (Inr (JStr r), ent'))"
  using assms(2)
proof
  assume "map_of creds u = None"
  with assms(1) show ?thesis by (simp add: verify_and_reuse_def)
next
  assume "\<exists>h. map_of creds u = Some h \<and> \<not> fst (verify_password pw h ent)"
  then obtain h where h: "map_of creds u = Some h" "\<not> fst (verify_password pw h ent)" by blast
  then have "verify_password pw h ent = (False, ent)"
    using verify_password_snd[of pw h ent] by simp
  with assms(1) h show ?thesis by (simp add: verify_and_reuse_def)
qed

lemma verify_and_reuse_existing:
  assumes "load_existing_hashes path fs = Inr (JObj creds)" and "map_of creds u = Some h"
    and "truthy h" and "fst (verify_password pw h ent)"
  shows "verify_and_reuse u pw path fs ent2 = (Inr h, ent2)"
proof -
  from assms(4) have "fst (verify_password pw h ent2)"
    using verify_password_entropy_free by blast
  then have "verify_password pw h ent2 = (True, ent2)"
    using verify_password_snd[of pw h ent2] by simp
  with assms(1-3) show ?thesis by (simp add: verify_and_reuse_def)
qed

text \<open>
  Claim C4 fails on the code. A store file that holds valid JSON which is not an object
  (here the empty list), or whose \<^verbatim>\<open>authentication\<close> value is not an object, makes
  \<^verbatim>\<open>get\<close> raise \<^verbatim>\<open>AttributeError\<close>, which \<^verbatim>\<open>load_existing_hashes\<close> does not catch; a file
  that is not text in the platform's encoding raises \<^verbatim>\<open>UnicodeDecodeError\<close>. An absent
  file and a file that is not JSON give the empty mapping, as the claim says.
\<close>

theorem load_existing_hashes_raises:
  "load_existing_hashes (ascii ''security.json'') (store_with (Document (JArr [])))
     = Inl AttributeError
   \<and> load_existing_hashes (ascii ''security.json'')
        (store_with (Document (jobj [(''authentication'', JArr [])])))
     = Inl AttributeError
   \<and> load_existing_hashes (ascii ''security.json'') (store_with Undecodable)
     = Inl UnicodeDecodeError
   \<and> load_existing_hashes (ascii ''security.json'') (store_with Absent) = Inr (JObj [])
   \<and> load_existing_hashes (ascii ''security.json'') (store_with Malformed) = Inr (JObj [])"
  by (simp add: load_existing_hashes_def store_with_def jobj_def ascii_def)

lemma load_solr_store:
  "load_existing_hashes path (solr_store r) = Inr (JObj [(ascii ''solr'', JStr r)])"
  by (simp add: load_existing_hashes_def solr_store_def store_with_def jobj_def ascii_def)

lemma encoded_hash_record_not_Nil: "encoded_hash_record s pb \<noteq> []"
  by (simp add: encoded_hash_record_def ascii_def)

text \<open>
  Claim C5, amended. When the store holds for the user a record that is not empty and
  that \<^verbatim>\<open>verify_password\<close> accepts, \<^verbatim>\<open>verify_and_reuse\<close> returns this record unchanged
  and consumes no randomness, so every later call on the same store with the same
  password returns the same record.
\<close>

theorem verify_and_reuse_idempotent:
  assumes "load_existing_hashes path fs = Inr (JObj creds)" and "map_of creds u = Some h"
    and "truthy h" and "fst (verify_password pw h ent)"
  shows "verify_and_reuse u pw path fs ent = (Inr h, ent)
       \<and> verify_and_reuse u pw path fs (snd (verify_and_reuse u pw path fs ent)) = (Inr h, ent)
       \<and> verify_and_reuse u pw path fs ent2 = (Inr h, ent2)"
  using verify_and_reuse_existing [OF assms] by simp

theorem verify_and_reuse_idempotent_witness:
  "load_existing_hashes (ascii ''security.json'')
       (solr_store (encoded_hash_record [1] [115, 101, 99, 114, 101, 116, 49, 50, 51]))
     = Inr (JObj [(ascii ''solr'',
          JStr (encoded_hash_record [1] [115, 101, 99, 114, 101, 116, 49, 50, 51]))])
   \<and> fst (verify_password (ascii ''secret123'')
        (JStr (encoded_hash_record [1] [115, 101, 99, 114, 101, 116, 49, 50, 51])) zero_entropy)
   \<and> verify_and_reuse (ascii ''solr'') (ascii ''secret123'') (ascii ''security.json'')
        (solr_store (encoded_hash_record [1] [115, 101, 99, 114, 101, 116, 49, 50, 51]))
        counting_entropy
     = (Inr (JStr (encoded_hash_record [1] [115, 101, 99, 114, 101, 116, 49, 50, 51])),
        counting_entropy)"
proof -
  let ?r = "encoded_hash_record [1] [115, 101, 99, 114, 101, 116, 49, 50, 51]"
  have v: "fst (verify_password (ascii ''secret123'') (JStr ?r) zero_entropy)"
    by (simp add: verify_password_record utf8_encode_secret)
  have t: "truthy (JStr ?r)" by (simp add: encoded_hash_record_not_Nil)
  have m: "map_of [(ascii ''solr'', JStr ?r)] (ascii ''solr'') = Some (JStr ?r)" by simp
  show ?thesis
    using verify_and_reuse_idempotent [OF load_solr_store m t v, of "ascii ''security.json''"
        counting_entropy] v load_solr_store
    by simp
qed

text \<open>
  Claim C5 as stated fails when the store has no record for the user: two consecutive
  calls on the same (absent) store draw different salts and return different records.
\<close>

theorem verify_and_reuse_twice_counterexample:
  "fst (verify_and_reuse (ascii ''solr'') (ascii ''secret123'') (ascii ''security.json'')
          (store_with Absent) counting_entropy)
   \<noteq> fst (verify_and_reuse (ascii ''solr'') (ascii ''secret123'') (ascii ''security.json'')
          (store_with Absent)
          (snd (verify_and_reuse (ascii ''solr'') (ascii ''secret123'') (ascii ''security.json'')
                  (store_with Absent) counting_entropy)))"
proof -
  let ?pb = "[115, 101, 99, 114, 101, 116, 49, 50, 51] :: bytes"
  have l: "load_existing_hashes (ascii ''security.json'') (store_with Absent) = Inr (JObj [])"
    by (simp add: load_existing_hashes_def store_with_def)
  have n: "\<And>ent. verify_and_reuse (ascii ''solr'') (ascii ''secret123'') (ascii ''security.json'')
          (store_with Absent) ent
       = (Inr (JStr (encoded_hash_record (map ent [0..<32]) ?pb)), \<lambda>i. ent (i + 32))"
    using verify_and_reuse_new [OF l, of "ascii ''solr''" "ascii ''secret123''"]
    by (simp add: hash_password_None utf8_encode_secret)
  have "map counting_entropy [0..<32] \<noteq> map (\<lambda>i. counting_entropy (i + 32)) [0..<32]"
  proof
    assume "map counting_entropy [0..<32] = map (\<lambda>i. counting_entropy (i + 32)) [0..<32]"
    then have "\<forall>i \<in> set [0..<32]. counting_entropy i = counting_entropy (i + 32)"
      by (simp only: map_eq_conv)
    then have "counting_entropy 0 = counting_entropy (0 + 32)" by simp
    then show False by (simp add: counting_entropy_def)
  qed
  then have "encoded_hash_record (map counting_entropy [0..<32]) ?pb
      \<noteq> encoded_hash_record (map (\<lambda>i. counting_entropy (i + 32)) [0..<32]) ?pb"
    using encoded_hash_record_inj by blast
  then show ?thesis by (simp add: n)
qed

text \<open>
  Claim C6. When the store file is absent, unreadable or not JSON, or when the store has
  no record for the user or one that \<^verbatim>\<open>verify_password\<close> rejects, \<^verbatim>\<open>verify_and_reuse\<close>
  returns what \<^verbatim>\<open>hash_password(password)\<close> returns: for a password that encodes, the
  record built with the next 32 bytes of the randomness as salt.
\<close>

theorem verify_and_reuse_fresh:
  assumes "fs path \<in> {Absent, Unreadable, Malformed}
     \<or> (\<exists>creds. load_existing_hashes path fs = Inr (JObj creds)
          \<and> (map_of creds u = None
               \<or> (\<exists>h. map_of creds u = Some h \<and> \<not> fst (verify_password pw h ent))))"
  shows "verify_and_reuse u pw path fs ent =
           (case hash_password pw None ent of
              (Inl e, ent') \<Rightarrow> (Inl e, ent')
            | (Inr r, ent') \<Rightarrow> (Inr (JStr r), ent'))
       \<and> (\<forall>pb. utf8_encode pw = Inr pb \<longrightarrow>
             length (map ent [0..<32]) = 32
             \<and> hash_password pw None ent
                 = (Inr (encoded_hash_record (map ent [0..<32]) pb), \<lambda>i. ent (i + 32))
             \<and> verify_and_reuse u pw path fs ent
                 = (Inr (JStr (encoded_hash_record (map ent [0..<32]) pb)), \<lambda>i. ent (i + 32)))"
proof -
  from assms obtain creds where c: "load_existing_hashes path fs = Inr (JObj creds)"
    "map_of creds u = None \<or> (\<exists>h. map_of creds u = Some h \<and> \<not> fst (verify_password pw h ent))"
    using load_existing_hashes_no_store[of fs path] by fastforce
  have 1: "verify_and_reuse u pw path fs ent =
           (case hash_password pw None ent of
              (Inl e, ent') \<Rightarrow> (Inl e, ent')
            | (Inr r, ent') \<Rightarrow> (Inr (JStr r), ent'))"
    by (rule verify_and_reuse_new [OF c])
  show ?thesis
    unfolding 1 by (simp add: hash_password_None)
qed

theorem verify_and_reuse_fresh_witness:
  "store_with Absent (ascii ''security.json'') \<in> {Absent, Unreadable, Malformed}
   \<and> utf8_encode (ascii ''secret123'') = Inr [115, 101, 99, 114, 101, 116, 49, 50, 51]
   \<and> verify_and_reuse (ascii ''solr'') (ascii ''secret123'') (ascii ''security.json'')
        (store_with Absent) zero_entropy
      = (Inr (JStr (encoded_hash_record (map zero_entropy [0..<32])
                      [115, 101, 99, 114, 101, 116, 49, 50, 51])),
         \<lambda>i. zero_entropy (i + 32))"
proof -
  have a: "store_with Absent (ascii ''security.json'') \<in> {Absent, Unreadable, Malformed}"
    by (simp add: store_with_def)
  then have "store_with Absent (ascii ''security.json'') \<in> {Absent, Unreadable, Malformed}
     \<or> (\<exists>creds. load_existing_hashes (ascii ''security.json'') (store_with Absent) = Inr (JObj creds)
          \<and> (map_of creds (ascii ''solr'') = None
               \<or> (\<exists>h. map_of creds (ascii ''solr'') = Some h
                     \<and> \<not> fst (verify_password (ascii ''secret123'') h zero_entropy))))"
    by blast
  from verify_and_reuse_fresh [OF this] a utf8_encode_secret show ?thesis by blast
qed

text \<open>
  Claim C9. Every record that \<^verbatim>\<open>verify_and_reuse\<close> returns is accepted by
  \<^verbatim>\<open>verify_password\<close> with the same password; and it does return a record whenever the
  password encodes and the store loads as a mapping.
\<close>

theorem verify_and_reuse_verifies:
  "(\<forall>r ent'. verify_and_reuse u pw path fs ent = (Inr r, ent')
        \<longrightarrow> verify_password pw r ent2 = (True, ent2))
   \<and> (\<forall>pb creds. utf8_encode pw = Inr pb \<and> load_existing_hashes path fs = Inr (JObj creds)
        \<longrightarrow> (\<exists>r ent'. verify_and_reuse u pw path fs ent = (Inr r, ent')))"
proof (intro conjI allI impI)
  fix r ent'
  assume ret: "verify_and_reuse u pw path fs ent = (Inr r, ent')"
  then obtain hs where hs: "load_existing_hashes path fs = Inr hs"
    by (auto simp: verify_and_reuse_def split: sum.splits)
  with ret obtain h where h: "py_get hs u JNull = Inr h"
    by (auto simp: verify_and_reuse_def split: sum.splits)
  show "verify_password pw r ent2 = (True, ent2)"
  proof (cases "truthy h \<and> fst (verify_password pw h ent)")
    case True
    then have "verify_password pw h ent = (True, ent)"
      using verify_password_snd[of pw h ent] by simp
    with ret hs h True have "r = h" by (simp add: verify_and_reuse_def)
    moreover from True have "fst (verify_password pw h ent2)"
      using verify_password_entropy_free by blast
    ultimately show ?thesis using verify_password_snd[of pw r ent2] by simp
  next
    case False
    then have "(if truthy h then verify_password pw h ent else (False, ent)) = (False, ent)"
      using verify_password_snd[of pw h ent] by auto
    with ret hs h obtain new where new: "hash_password pw None ent = (Inr new, ent')" "r = JStr new"
      by (auto simp: verify_and_reuse_def split: sum.splits prod.splits)
    then obtain pb where pb: "utf8_encode pw = Inr pb"
      "new = encoded_hash_record (map ent [0..<32]) pb"
      by (auto simp: hash_password_None split: sum.splits)
    have "map ent [0..<32] \<noteq> []" by simp
    with pb new show ?thesis by (simp add: verify_password_record)
  qed
next
  fix pb creds
  assume "utf8_encode pw = Inr pb \<and> load_existing_hashes path fs = Inr (JObj creds)"
  then show "\<exists>r ent'. verify_and_reuse u pw path fs ent = (Inr r, ent')"
    by (auto simp: verify_and_reuse_def hash_password_None Let_def split: option.splits prod.splits)
qed

theorem verify_and_reuse_verifies_witness:
  "verify_and_reuse (ascii ''solr'') (ascii ''secret123'') (ascii ''security.json'')
        (store_with Absent) zero_entropy
      = (Inr (JStr (encoded_hash_record (map zero_entropy [0..<32])
                      [115, 101, 99, 114, 101, 116, 49, 50, 51])),
         \<lambda>i. zero_entropy (i + 32))
   \<and> verify_password (ascii ''secret123'')
        (JStr (encoded_hash_record (map zero_entropy [0..<32])
                      [115, 101, 99, 114, 101, 116, 49, 50, 51])) counting_entropy
      = (True, counting_entropy)"
proof -
  have l: "load_existing_hashes (ascii ''security.json'') (store_with Absent) = Inr (JObj [])"
    by (simp add: load_existing_hashes_def store_with_def)
  have n: "verify_and_reuse (ascii ''solr'') (ascii ''secret123'') (ascii ''security.json'')
          (store_with Absent) zero_entropy
       = (Inr (JStr (encoded_hash_record (map zero_entropy [0..<32])
                      [115, 101, 99, 114, 101, 116, 49, 50, 51])), \<lambda>i. zero_entropy (i + 32))"
    using verify_and_reuse_new [OF l, of "ascii ''solr''" "ascii ''secret123''" zero_entropy]
    by (simp add: hash_password_None utf8_encode_secret)
  from verify_and_reuse_verifies [of "ascii ''solr''" "ascii ''secret123''" "ascii ''security.json''"
      "store_with Absent" zero_entropy counting_entropy] n
  show ?thesis by blast
qed

text \<open>
  Claim C10. \<^verbatim>\<open>main\<close> does the same for every value of \<^verbatim>\<open>--salt-bytes\<close>; a salt that
  \<^verbatim>\<open>hash_password\<close> generates has 32 bytes, also on the hashing path of the command line.
\<close>

theorem salt_bytes_ignored:
  "main (a\<lparr>arg_salt_bytes := n\<rparr>) fs ent = main a fs ent
   \<and> generate_random_salt 32 ent = (Inr (map ent [0..<32]), \<lambda>i. ent (i + 32))
   \<and> length (map ent [0..<32]) = 32
   \<and> (\<forall>pb. utf8_encode pw = Inr pb \<longrightarrow>
         hash_password pw None ent
           = (Inr (encoded_hash_record (map ent [0..<32]) pb), \<lambda>i. ent (i + 32)))
   \<and> (\<forall>pb. arg_verify a = None \<and> arg_reuse a = None \<and> arg_password a = Some pw \<and> pw \<noteq> []
             \<and> utf8_encode pw = Inr pb \<longrightarrow>
         main a fs ent
           = (Inr ([Print (JStr (encoded_hash_record (map ent [0..<32]) pb))], 0),
              \<lambda>i. ent (i + 32)))"
proof -
  have 1: "main (a\<lparr>arg_salt_bytes := n\<rparr>) fs ent = main a fs ent"
    by (cases "arg_verify a"; cases "arg_reuse a"; cases "arg_password a"; simp add: main_def)
  have 2: "generate_random_salt 32 ent = (Inr (map ent [0..<32]), \<lambda>i. ent (i + 32))"
    by (simp add: generate_random_salt_def token_bytes_def)
  have 3: "\<forall>pb. utf8_encode pw = Inr pb \<longrightarrow>
         hash_password pw None ent
           = (Inr (encoded_hash_record (map ent [0..<32]) pb), \<lambda>i. ent (i + 32))"
    by (simp add: hash_password_None)
  have 4: "\<forall>pb. arg_verify a = None \<and> arg_reuse a = None \<and> arg_password a = Some pw \<and> pw \<noteq> []
             \<and> utf8_encode pw = Inr pb \<longrightarrow>
         main a fs ent
           = (Inr ([Print (JStr (encoded_hash_record (map ent [0..<32]) pb))], 0),
              \<lambda>i. ent (i + 32))"
    by (cases pw) (auto simp: main_def hash_password_None)
  from 1 2 3 4 show ?thesis by simp
qed

theorem salt_bytes_ignored_witness:
  "main (hash_args\<lparr>arg_salt_bytes := 16\<rparr>) (store_with Absent) zero_entropy
     = main hash_args (store_with Absent) zero_entropy
   \<and> main hash_args (store_with Absent) zero_entropy
     = (Inr ([Print (JStr (encoded_hash_record (map zero_entropy [0..<32])
                  [115, 101, 99, 114, 101, 116, 49, 50, 51]))], 0),
              \<lambda>i. zero_entropy (i + 32))"
proof -
  have "arg_verify hash_args = None \<and> arg_reuse hash_args = None
      \<and> arg_password hash_args = Some (ascii ''secret123'') \<and> ascii ''secret123'' \<noteq> []
      \<and> utf8_encode (ascii ''secret123'') = Inr [115, 101, 99, 114, 101, 116, 49, 50, 51]"
    by (simp add: hash_args_def utf8_encode_secret) (simp add: ascii_def)
  with salt_bytes_ignored [where a = hash_args and n = 16 and fs = "store_with Absent"
      and ent = zero_entropy and pw = "ascii ''secret123''"]
  show ?thesis by blast
qed


section \<open>Properties of the health aggregator\<close>

lemma status_of_health_data:
  "status_of (health_data customer status solr cores system errors) = Some (JStr status)"
  by (simp add: status_of_def health_data_def jobj_def ascii_def)

lemma health_data_keys:
  "\<exists>kvs. health_data customer status solr cores system errors = JObj kvs
     \<and> map fst kvs = map ascii [''customer'', ''version'', ''status'', ''solr'', ''cores'',
          ''system'', ''errors'']"
  by (simp add: health_data_def jobj_def)

lemma status_names_differ:
  "ascii ''error'' \<noteq> ascii ''healthy''" "ascii ''unhealthy'' \<noteq> ascii ''healthy''"
  by (simp_all add: ascii_def)

lemma health_check_cases:
  "\<exists>status solr cores system errors.
     health_check customer s c y = health_data customer status solr cores system errors
     \<and> status \<in> {ascii ''healthy'', ascii ''unhealthy'', ascii ''error''}
     \<and> (status = ascii ''healthy'' \<longleftrightarrow>
          (\<exists>sh av co sy. s = Inr sh \<and> py_get sh (ascii ''available'') JNull = Inr av \<and> truthy av
             \<and> c = Inr co \<and> y = Inr sy))"
proof (cases s)
  case (Inl e)
  then show ?thesis
    by (auto simp: health_check_def status_names_differ intro!: exI)
next
  case (Inr sh)
  show ?thesis
  proof (cases "py_get sh (ascii ''available'') JNull")
    case (Inl e)
    with Inr show ?thesis by (auto simp: health_check_def status_names_differ intro!: exI)
  next
    case av: (Inr av)
    show ?thesis
    proof (cases "truthy av")
      case False
      with Inr av show ?thesis
        by (auto simp: health_check_def status_names_differ intro!: exI)
    next
      case True
      with Inr av show ?thesis
        by (cases c; cases y) (auto simp: health_check_def status_names_differ intro!: exI)
    qed
  qed
qed

text \<open>
  Claim C7. Whatever the three checks do, the response to \<^verbatim>\<open>GET /health\<close> carries the
  JSON document \<^verbatim>\<open>health_data\<close> with the keys \<^verbatim>\<open>customer\<close>, \<^verbatim>\<open>version\<close>, \<^verbatim>\<open>status\<close>,
  \<^verbatim>\<open>solr\<close>, \<^verbatim>\<open>cores\<close>, \<^verbatim>\<open>system\<close> and \<^verbatim>\<open>errors\<close>; its status is \<^verbatim>\<open>healthy\<close>,
  \<^verbatim>\<open>unhealthy\<close> or \<^verbatim>\<open>error\<close>; the HTTP status is 200 exactly when it is \<^verbatim>\<open>healthy\<close>
  and 503 otherwise; it is \<^verbatim>\<open>healthy\<close> exactly when the Solr check returns a truthy
  \<^verbatim>\<open>available\<close> and the two other checks return. \<^verbatim>\<open>GET /ping\<close> always answers 200 with
  the body \<^verbatim>\<open>{"status": "ok"}\<close>.
\<close>

theorem health_status_mapping:
  "content (handle_health customer s c y) = Json_body (health_check customer s c y)
   \<and> (\<exists>kvs. health_check customer s c y = JObj kvs
         \<and> map fst kvs = map ascii [''customer'', ''version'', ''status'', ''solr'', ''cores'',
              ''system'', ''errors''])
   \<and> status_of (health_check customer s c y)
        \<in> {Some (jstr ''healthy''), Some (jstr ''unhealthy''), Some (jstr ''error'')}
   \<and> (status_code (handle_health customer s c y) = 200
        \<longleftrightarrow> status_of (health_check customer s c y) = Some (jstr ''healthy''))
   \<and> (status_code (handle_health customer s c y) = 503
        \<longleftrightarrow> status_of (health_check customer s c y) \<noteq> Some (jstr ''healthy''))
   \<and> (status_of (health_check customer s c y) = Some (jstr ''healthy'')
        \<longleftrightarrow> (\<exists>sh av co sy. s = Inr sh \<and> py_get sh (ascii ''available'') JNull = Inr av
               \<and> truthy av \<and> c = Inr co \<and> y = Inr sy))
   \<and> do_GET (ascii ''/health'') customer s c y = handle_health customer s c y
   \<and> do_GET (ascii ''/ping'') customer s c y
        = \<lparr>status_code = 200, content_type = Some (ascii ''application/json''),
           content = Json_body (jobj [(''status'', jstr ''ok'')])\<rparr>"
proof -
  obtain status solr cores system errors where
    h: "health_check customer s c y = health_data customer status solr cores system errors"
    and st: "status \<in> {ascii ''healthy'', ascii ''unhealthy'', ascii ''error''}"
    and iff: "status = ascii ''healthy'' \<longleftrightarrow>
          (\<exists>sh av co sy. s = Inr sh \<and> py_get sh (ascii ''available'') JNull = Inr av \<and> truthy av
             \<and> c = Inr co \<and> y = Inr sy)"
    using health_check_cases[of customer s c y] by blast
  have so: "status_of (health_check customer s c y) = Some (JStr status)"
    by (simp add: h status_of_health_data)
  have 1: "content (handle_health customer s c y) = Json_body (health_check customer s c y)"
    by (simp add: handle_health_def Let_def)
  have 2: "\<exists>kvs. health_check customer s c y = JObj kvs
         \<and> map fst kvs = map ascii [''customer'', ''version'', ''status'', ''solr'', ''cores'',
              ''system'', ''errors'']"
    unfolding h by (rule health_data_keys)
  have 3: "status_of (health_check customer s c y)
        \<in> {Some (jstr ''healthy''), Some (jstr ''unhealthy''), Some (jstr ''error'')}"
    using st by (auto simp: so jstr_def)
  have 4: "status_code (handle_health customer s c y) = 200
        \<longleftrightarrow> status_of (health_check customer s c y) = Some (jstr ''healthy'')"
    by (simp add: handle_health_def Let_def)
  have 5: "status_code (handle_health customer s c y) = 503
        \<longleftrightarrow> status_of (health_check customer s c y) \<noteq> Some (jstr ''healthy'')"
    by (simp add: handle_health_def Let_def)
  have 6: "status_of (health_check customer s c y) = Some (jstr ''healthy'')
        \<longleftrightarrow> (\<exists>sh av co sy. s = Inr sh \<and> py_get sh (ascii ''available'') JNull = Inr av
               \<and> truthy av \<and> c = Inr co \<and> y = Inr sy)"
    using iff by (simp add: so jstr_def)
  have 7: "do_GET (ascii ''/health'') customer s c y = handle_health customer s c y"
    by (simp add: do_GET_def)
  have 8: "do_GET (ascii ''/ping'') customer s c y
        = \<lparr>status_code = 200, content_type = Some (ascii ''application/json''),
           content = Json_body (jobj [(''status'', jstr ''ok'')])\<rparr>"
    by (simp add: do_GET_def handle_ping_def ascii_def)
  from 1 2 3 4 5 6 7 8 show ?thesis by blast
qed

lemma solr_ok_available:
  "py_get solr_ok (ascii ''available'') JNull = Inr (JBool True)"
  by (simp add: solr_ok_def check_solr_def jobj_def ascii_def)

theorem health_status_mapping_witness:
  "status_code (handle_health (ascii ''default'') (Inr solr_ok) (Inr (JArr [])) (Inr (JObj [])))
     = 200
   \<and> status_code (handle_health (ascii ''default'') (Inr (check_solr (URLError (ascii ''refused''))))
        (Inr (JArr [])) (Inr (JObj []))) = 503"
proof -
  have a: "\<exists>sh av co sy. (Inr solr_ok :: str + json) = Inr sh
      \<and> py_get sh (ascii ''available'') JNull = Inr av \<and> truthy av
      \<and> (Inr (JArr []) :: str + json) = Inr co \<and> (Inr (JObj []) :: str + json) = Inr sy"
    using solr_ok_available by simp
  have b: "\<not> (\<exists>sh av co sy. (Inr (check_solr (URLError (ascii ''refused''))) :: str + json) = Inr sh
      \<and> py_get sh (ascii ''available'') JNull = Inr av \<and> truthy av
      \<and> (Inr (JArr []) :: str + json) = Inr co \<and> (Inr (JObj []) :: str + json) = Inr sy)"
    by (simp add: check_solr_def jobj_def ascii_def)
  from health_status_mapping [of "ascii ''default''" "Inr solr_ok" "Inr (JArr [])" "Inr (JObj [])"] a
  have 1: "status_code (handle_health (ascii ''default'') (Inr solr_ok) (Inr (JArr [])) (Inr (JObj [])))
     = 200" by blast
  from health_status_mapping [of "ascii ''default''" "Inr (check_solr (URLError (ascii ''refused'')))"
      "Inr (JArr [])" "Inr (JObj [])"] b
  have 2: "status_code (handle_health (ascii ''default'') (Inr (check_solr (URLError (ascii ''refused''))))
        (Inr (JArr [])) (Inr (JObj []))) = 503" by blast
  from 1 2 show ?thesis by simp
qed

section \<open>Properties of floating-point addition\<close>

lemma bit_length_bounds: "2 ^ k \<le> n \<Longrightarrow> n < 2 ^ Suc k \<Longrightarrow> bit_length n = Suc k"
proof (induction k arbitrary: n)
  case 0
  then have "n = 1" by simp
  then show ?case by (simp add: bit_length.simps)
next
  case (Suc k)
  from Suc.prems have "2 ^ k \<le> n div 2" "n div 2 < 2 ^ Suc k" by simp_all
  from Suc.IH [OF this] Suc.prems show ?case
    by (subst bit_length.simps) auto
qed

text \<open>A sum that lies halfway between two doubles is rounded to the even mantissa.\<close>

lemma nearest_float_tie_even:
  assumes q: "2 ^ 52 \<le> q" "q < 2 ^ 53" "even q" and t: "t < 2045"
  shows "nearest_float neg (q * 2 ^ Suc t + 2 ^ t) = pack_float neg (t + 2) (q - 2 ^ 52)"
proof -
  let ?n = "q * 2 ^ Suc t + 2 ^ t"
  have "2 ^ 52 * 2 ^ Suc t \<le> q * (2::nat) ^ Suc t" using q(1) by (rule mult_le_mono1)
  then have lo: "2 ^ (52 + Suc t) \<le> ?n" by (simp add: power_add)
  have "Suc q * 2 ^ Suc t \<le> 2 ^ 53 * (2::nat) ^ Suc t"
    using q(2) by (intro mult_le_mono1) simp
  moreover have "?n < Suc q * 2 ^ Suc t" by simp
  ultimately have "?n < 2 ^ 53 * (2::nat) ^ Suc t" by (rule less_le_trans [rotated])
  then have hi: "?n < 2 ^ Suc (52 + Suc t)" by (simp only: power_add [symmetric]) simp
  have bl: "bit_length ?n = Suc (52 + Suc t)" by (rule bit_length_bounds [OF lo hi])
  have d: "?n div 2 ^ Suc t = q" by simp
  have m: "?n mod 2 ^ Suc t = 2 ^ t" by simp
  have sh: "Suc (52 + Suc t) - 53 = Suc t" by simp
  have np: "q \<noteq> 2 ^ 53" using q(2) by simp
  show ?thesis
    unfolding nearest_float_def Let_def bl sh d m
    using q(3) np t by simp
qed

text \<open>A power of two is a double.\<close>

lemma nearest_float_power:
  assumes "u < 2046"
  shows "nearest_float neg (2 ^ 52 * 2 ^ u) = pack_float neg (Suc u) 0"
proof -
  let ?n = "2 ^ 52 * 2 ^ u :: nat"
  have lo: "2 ^ (52 + u) \<le> ?n" by (simp add: power_add)
  have hi: "?n < 2 ^ Suc (52 + u)" by (simp only: power_add power_Suc) simp
  have bl: "bit_length ?n = Suc (52 + u)" by (rule bit_length_bounds [OF lo hi])
  have d: "?n div 2 ^ u = 2 ^ 52" by simp
  have m: "?n mod 2 ^ u = 0" by simp
  have sh: "Suc (52 + u) - 53 = u" by simp
  show ?thesis
    unfolding nearest_float_def Let_def bl sh d m
    using assms by simp
qed

lemma float_of_int_one: "float_of_int 1 = Some 0x3FF0000000000000"
proof -
  have "(2::nat) ^ 1074 = 2 ^ 52 * 2 ^ 1022" by (simp only: power_add [symmetric]) simp
  then have "nearest_float False (2 ^ 1074) = pack_float False (Suc 1022) 0"
    using nearest_float_power [of 1022 False] by simp
  moreover have "pack_float False (Suc 1022) 0 = 0x3FF0000000000000"
    by (simp add: pack_float_def)
  moreover have "\<not> is_inf 0x3FF0000000000000"
    by (simp add: is_inf_def float_exponent_def)
  ultimately show ?thesis
    by (simp add: float_of_int_def)
qed

text \<open>Adding a power of two that is half a unit in the last place of \<open>x\<close> gives \<open>x\<close>
  again when the mantissa of \<open>x\<close> is even.\<close>

lemma float_add_tie_even:
  assumes sx: "\<not> float_sign x" and sy: "\<not> float_sign y"
    and ex: "float_exponent x = t + 2" and t: "t < 2045"
    and mx: "even (float_mantissa x)" "float_mantissa x < 2 ^ 52"
    and ey: "float_exponent y = Suc u" and my: "float_mantissa y = 0" and u: "52 + u = t"
  shows "float_add x y = pack_float False (t + 2) (float_mantissa x)"
proof -
  let ?q = "2 ^ 52 + float_mantissa x"
  have nx: "\<not> is_nan x" "\<not> is_inf x" using ex t by (simp_all add: is_nan_def is_inf_def)
  have ny: "\<not> is_nan y" "\<not> is_inf y" using ey u t by (simp_all add: is_nan_def is_inf_def)
  have scx: "scaled x = int (?q * 2 ^ Suc t)"
    using sx ex by (simp add: scaled_def)
  have "(2::int) ^ 52 * 2 ^ u = 2 ^ t" unfolding u [symmetric] by (simp only: power_add)
  then have scy: "scaled y = int (2 ^ t)"
    using sy ey my by (simp add: scaled_def)
  define n where "n = ?q * 2 ^ Suc t + 2 ^ t"
  have k: "scaled x + scaled y = int n"
    unfolding scx scy n_def by (simp only: of_nat_add)
  have pos: "0 < n" unfolding n_def by simp
  have k0: "scaled x + scaled y \<noteq> 0" "\<not> scaled x + scaled y < 0"
    "nat \<bar>scaled x + scaled y\<bar> = n"
    unfolding k using pos by simp_all
  have q: "2 ^ 52 \<le> ?q" "?q < 2 ^ 53" "even ?q" using mx by simp_all
  have "float_add x y = nearest_float False n"
    unfolding float_add_def Let_def using nx ny k0 by (simp only: if_False simp_thms)
  then have "float_add x y = nearest_float False (?q * 2 ^ Suc t + 2 ^ t)"
    unfolding n_def .
  also have "\<dots> = pack_float False (t + 2) (?q - 2 ^ 52)"
    by (rule nearest_float_tie_even [OF q t])
  finally show ?thesis by simp
qed

text \<open>\<^verbatim>\<open>1e16 + 1 == 1e16\<close>.\<close>

lemma float_add_one_absorbed:
  "float_add 0x4341C37937E08000 0x3FF0000000000000 = 0x4341C37937E08000"
proof -
  have "float_add 0x4341C37937E08000 0x3FF0000000000000
      = pack_float False (1074 + 2) (float_mantissa 0x4341C37937E08000)"
    by (rule float_add_tie_even [where u = 1022])
      (simp_all add: float_sign_def float_exponent_def float_mantissa_def)
  also have "\<dots> = 0x4341C37937E08000"
    by (simp add: pack_float_def float_mantissa_def)
  finally show ?thesis .
qed

lemma float_add_absorbs_one:
  "py_add (JFloat 0x4341C37937E08000) (JInt 1) = Inr (JFloat 0x4341C37937E08000)"
  by (simp add: float_of_int_one float_add_one_absorbed)

section \<open>Properties of the dashboard scripts\<close>

lemma comprehension_append:
  "comprehension f (xs @ ys) =
     (case comprehension f xs of
        Inl e \<Rightarrow> Inl e
      | Inr a \<Rightarrow> (case comprehension f ys of Inl e \<Rightarrow> Inl e | Inr b \<Rightarrow> Inr (a @ b)))"
  by (induction xs) (simp_all split: sum.splits)

lemma py_gt_ints: "as_int a = Some i \<Longrightarrow> as_int b = Some j \<Longrightarrow> py_gt a b \<longleftrightarrow> j < i"
  by (cases a; cases b) (simp_all add: py_gt_def)

lemma number_not_float: "is_number v \<Longrightarrow> \<not> is_float v \<Longrightarrow> \<exists>i. as_int v = Some i"
  by (cases v) (simp_all add: is_number_def)

text \<open>On integers \<^verbatim>\<open>max\<close> returns an item of the list that no item exceeds.\<close>

lemma foldl_max_ints:
  assumes "as_int x = Some i" and "\<forall>v \<in> set xs. as_int v \<noteq> None"
  shows "\<exists>r k. foldl (\<lambda>maxitem item. if py_gt item maxitem then item else maxitem) x xs = r
      \<and> r \<in> set (x # xs) \<and> as_int r = Some k
      \<and> (\<forall>v \<in> set (x # xs). \<forall>j. as_int v = Some j \<longrightarrow> j \<le> k)"
  using assms
proof (induction xs arbitrary: x i)
  case Nil
  then show ?case by simp
next
  case (Cons a xs)
  from Cons.prems(2) obtain j where j: "as_int a = Some j" by auto
  let ?x = "if py_gt a x then a else x"
  have x': "as_int ?x = Some (max i j)" "?x \<in> {x, a}"
    using Cons.prems(1) j by (auto simp: py_gt_ints)
  from Cons.prems(2) have "\<forall>v \<in> set xs. as_int v \<noteq> None" by simp
  from Cons.IH [OF x'(1) this] obtain r k where
    r: "foldl (\<lambda>maxitem item. if py_gt item maxitem then item else maxitem) ?x xs = r"
      "r \<in> set (?x # xs)" "as_int r = Some k"
      "\<forall>v \<in> set (?x # xs). \<forall>j. as_int v = Some j \<longrightarrow> j \<le> k"
    by blast
  from r(4) x'(1) have "max i j \<le> k" by simp
  then have "i \<le> k" "j \<le> k" by simp_all
  with r(4) Cons.prems(1) j
  have b: "\<forall>v \<in> set (x # a # xs). \<forall>j. as_int v = Some j \<longrightarrow> j \<le> k" by auto
  from r(2) x'(2) have m: "r \<in> set (x # a # xs)" by auto
  from r(1) have "foldl (\<lambda>maxitem item. if py_gt item maxitem then item else maxitem) x (a # xs) = r"
    by simp
  with m r(3) b show ?case by blast
qed

lemma py_max_ints:
  assumes "\<forall>v \<in> set vs. as_int v \<noteq> None"
  shows "\<exists>r k. py_max vs = Inr r \<and> as_int r = Some k
      \<and> (\<forall>v \<in> set vs. \<forall>j. as_int v = Some j \<longrightarrow> j \<le> k)
      \<and> (vs = [] \<longrightarrow> r = JInt 0) \<and> (vs \<noteq> [] \<longrightarrow> r \<in> set vs)"
proof (cases vs)
  case Nil
  then show ?thesis by (simp add: py_max_def)
next
  case (Cons x xs)
  with assms obtain i where i: "as_int x = Some i" and xs: "\<forall>v \<in> set xs. as_int v \<noteq> None"
    by auto
  have n: "\<not> list_ex (\<lambda>v. \<not> is_number v) vs"
    using assms by (auto simp: list_ex_iff is_number_def)
  from foldl_max_ints [OF i xs] n Cons show ?thesis
    by (simp add: py_max_def)
qed

lemma py_max_numbers: "py_max vs = Inr r \<Longrightarrow> v \<in> set vs \<Longrightarrow> is_number v"
  by (auto simp: py_max_def list_ex_iff split: if_splits)

text \<open>\<^verbatim>\<open>max\<close> of a list of integers followed by larger integers.\<close>

lemma py_max_append:
  assumes vs: "\<forall>v \<in> set vs. \<exists>j. as_int v = Some j \<and> j < k"
    and ws: "\<forall>v \<in> set ws. \<exists>j. v = JInt j \<and> j \<le> k" and k: "JInt k \<in> set ws"
  shows "py_max (vs @ ws) = Inr (JInt k)"
proof -
  have "\<forall>v \<in> set (vs @ ws). as_int v \<noteq> None" using vs ws by auto
  from py_max_ints [OF this] k obtain r i where
    r: "py_max (vs @ ws) = Inr r" "as_int r = Some i"
      "\<forall>v \<in> set (vs @ ws). \<forall>j. as_int v = Some j \<longrightarrow> j \<le> i" "r \<in> set (vs @ ws)"
    by auto
  have "as_int (JInt k) = Some k" by simp
  with r(3) k have "k \<le> i" by (metis Un_iff set_append)
  with vs r(2) have "r \<notin> set vs" by auto
  with r(4) have "r \<in> set ws" by simp
  with ws r(2) obtain j where "r = JInt j" "j \<le> k" "i = j" by auto
  with \<open>k \<le> i\<close> r(1) show ?thesis by simp
qed

lemma ascii_inj: "ascii s = ascii t \<longleftrightarrow> s = t"
proof
  assume "ascii s = ascii t"
  then have "map (of_char :: char \<Rightarrow> nat) s = map of_char t" by (simp add: ascii_def)
  moreover have "inj (of_char :: char \<Rightarrow> nat)" by (simp add: inj_on_def)
  ultimately show "s = t" by (simp only: inj_map_eq_map)
qed simp

lemma map_of_ascii_keys:
  "map_of (map (\<lambda>(k, v). (ascii k, v)) kvs) (ascii key) = map_of kvs key"
  by (induction kvs) (auto simp: ascii_inj)

lemma py_get_jobj:
  "py_get (jobj kvs) (ascii key) dflt = (case map_of kvs key of None \<Rightarrow> Inr dflt | Some v \<Rightarrow> Inr v)"
  by (simp add: jobj_def map_of_ascii_keys)

lemma py_add_one:
  "py_add v (JInt 1) = Inr w \<Longrightarrow> \<not> is_float v \<Longrightarrow> \<exists>i. as_int v = Some i \<and> w = JInt (i + 1)"
  by (cases v) (auto split: if_splits)

lemma py_add_one_number: "as_int v = Some i \<Longrightarrow> py_add v (JInt 1) = Inr (JInt (i + 1))"
  by (cases v) (auto split: if_splits)

lemma py_add_number:
  assumes "py_add a b = Inr c" and "is_number c" and "\<not> is_float a" and "\<not> is_float b"
  shows "\<exists>k. c = JInt k"
  using assms by (cases a; cases b) (auto simp: is_number_def split: if_splits)

lemma new_panels_ints:
  "new_panels (JInt m) (JInt y) =
     Inr [query_row (JInt m) (JInt y), panel_latency (JInt (m + 1)) (JInt (y + 1)),
          panel_slow (JInt (m + 2)) (JInt (y + 1)), panel_rate (JInt (m + 3)) (JInt (y + 9)),
          panel_cache (JInt (m + 4)) (JInt (y + 9)), panel_trend (JInt (m + 5)) (JInt (y + 17))]"
  by (simp add: new_panels_def and_then_def add.commute)

lemma new_panels_ids:
  assumes "new_panels (JInt m) (JInt y) = Inr built"
  shows "comprehension (\<lambda>p. py_get p (ascii ''id'') (JInt 0)) built
     = Inr [JInt m, JInt (m + 1), JInt (m + 2), JInt (m + 3), JInt (m + 4), JInt (m + 5)]"
  using assms unfolding new_panels_ints
  by (auto simp: query_row_def panel_latency_def panel_slow_def panel_rate_def
      panel_cache_def panel_trend_def py_get_jobj)

lemma new_panels_bottoms:
  assumes "new_panels (JInt m) (JInt y) = Inr built"
  shows "comprehension grid_bottom built
     = Inr [JInt (y + 1), JInt (y + 9), JInt (y + 9), JInt (y + 17), JInt (y + 17), JInt (y + 25)]"
  using assms unfolding new_panels_ints
  by (auto simp: grid_bottom_def query_row_def panel_latency_def panel_slow_def
      panel_rate_def panel_cache_def panel_trend_def py_get_jobj)

lemma new_panels_length: "new_panels a b = Inr built \<Longrightarrow> length built = 6"
  by (auto simp: new_panels_def and_then_def split: sum.splits)

lemma comprehension_forward:
  "comprehension f xs = Inr ys \<Longrightarrow> x \<in> set xs \<Longrightarrow> \<exists>y \<in> set ys. f x = Inr y"
proof (induction xs arbitrary: ys)
  case Nil
  then show ?case by simp
next
  case (Cons a xs)
  from Cons.prems(1) obtain b bs where b: "f a = Inr b" "comprehension f xs = Inr bs" "ys = b # bs"
    by (auto split: sum.splits)
  show ?case
  proof (cases "x = a")
    case True
    with b show ?thesis by simp
  next
    case False
    with Cons.prems(2) have "x \<in> set xs" by simp
    from Cons.IH [OF b(2) this] b(3) show ?thesis by auto
  qed
qed

lemma comprehension_backward:
  "comprehension f xs = Inr ys \<Longrightarrow> y \<in> set ys \<Longrightarrow> \<exists>x \<in> set xs. f x = Inr y"
proof (induction xs arbitrary: ys)
  case Nil
  then show ?case by simp
next
  case (Cons a xs)
  from Cons.prems(1) obtain b bs where b: "f a = Inr b" "comprehension f xs = Inr bs" "ys = b # bs"
    by (auto split: sum.splits)
  show ?case
  proof (cases "y = b")
    case True
    with b show ?thesis by simp
  next
    case False
    with Cons.prems(2) b(3) have "y \<in> set bs" by simp
    from Cons.IH [OF b(2) this] show ?thesis by auto
  qed
qed

lemma comprehension_Nil_iff: "comprehension f xs = Inr ys \<Longrightarrow> ys = [] \<longleftrightarrow> xs = []"
  by (cases xs) (auto split: sum.splits)

text \<open>When no identifier is a float, \<^verbatim>\<open>next_id\<close> is an integer, one more than the
  largest identifier.\<close>

lemma first_next_id_ints:
  assumes n: "first_next_id ps = Inr next_id"
    and nf: "\<forall>p \<in> set ps. \<forall>v. py_get p (ascii ''id'') (JInt 0) = Inr v \<longrightarrow> \<not> is_float v"
  shows "\<exists>m. next_id = JInt m
       \<and> (\<forall>p \<in> set ps. \<exists>v i. py_get p (ascii ''id'') (JInt 0) = Inr v \<and> as_int v = Some i \<and> i < m)
       \<and> (ps = [] \<longrightarrow> m = 1)
       \<and> (ps \<noteq> [] \<longrightarrow> (\<exists>p \<in> set ps. \<exists>v.
              py_get p (ascii ''id'') (JInt 0) = Inr v \<and> as_int v = Some (m - 1)))"
proof -
  from n obtain ids mx where ids: "comprehension (\<lambda>p. py_get p (ascii ''id'') (JInt 0)) ps = Inr ids"
    and mx: "py_max ids = Inr mx" and a: "py_add mx (JInt 1) = Inr next_id"
    by (auto simp: first_next_id_def split: sum.splits)
  have ints: "\<forall>v \<in> set ids. as_int v \<noteq> None"
  proof
    fix v assume v: "v \<in> set ids"
    from comprehension_backward [OF ids v] nf have "\<not> is_float v" by blast
    with number_not_float [OF py_max_numbers [OF mx v]] show "as_int v \<noteq> None" by auto
  qed
  from py_max_ints [OF ints] mx obtain k where k: "as_int mx = Some k"
    and b: "\<forall>v \<in> set ids. \<forall>j. as_int v = Some j \<longrightarrow> j \<le> k"
    and e: "ids = [] \<longrightarrow> mx = JInt 0" and ne: "ids \<noteq> [] \<longrightarrow> mx \<in> set ids"
    by auto
  from a py_add_one_number [OF k] have nid: "next_id = JInt (k + 1)" by simp
  have 1: "\<forall>p \<in> set ps. \<exists>v i. py_get p (ascii ''id'') (JInt 0) = Inr v \<and> as_int v = Some i
      \<and> i < k + 1"
  proof
    fix p assume "p \<in> set ps"
    from comprehension_forward [OF ids this] obtain v where v: "v \<in> set ids"
      "py_get p (ascii ''id'') (JInt 0) = Inr v" by blast
    from ints v(1) obtain i where i: "as_int v = Some i" by auto
    with b v(1) have "i \<le> k" by blast
    with v(2) i show "\<exists>v i. py_get p (ascii ''id'') (JInt 0) = Inr v \<and> as_int v = Some i \<and> i < k + 1"
      by auto
  qed
  have 2: "ps = [] \<longrightarrow> k + 1 = 1"
    using comprehension_Nil_iff [OF ids] e k by auto
  have 3: "ps \<noteq> [] \<longrightarrow> (\<exists>p \<in> set ps. \<exists>v.
              py_get p (ascii ''id'') (JInt 0) = Inr v \<and> as_int v = Some (k + 1 - 1))"
  proof
    assume "ps \<noteq> []"
    then have "ids \<noteq> []" using comprehension_Nil_iff [OF ids] by simp
    with ne have "mx \<in> set ids" by simp
    from comprehension_backward [OF ids this] k
    show "\<exists>p \<in> set ps. \<exists>v. py_get p (ascii ''id'') (JInt 0) = Inr v \<and> as_int v = Some (k + 1 - 1)"
      by auto
  qed
  from nid 1 2 3 show ?thesis by blast
qed

lemma first_next_id_again:
  assumes n: "first_next_id ps = Inr (JInt m)"
    and nf: "\<forall>p \<in> set ps. \<forall>v. py_get p (ascii ''id'') (JInt 0) = Inr v \<longrightarrow> \<not> is_float v"
    and built: "new_panels (JInt m) (JInt y) = Inr built"
  shows "first_next_id (ps @ built) = Inr (JInt (m + 6))"
proof -
  from n obtain ids where ids: "comprehension (\<lambda>p. py_get p (ascii ''id'') (JInt 0)) ps = Inr ids"
    by (auto simp: first_next_id_def split: sum.splits)
  from first_next_id_ints [OF n nf]
  have lt: "\<forall>p \<in> set ps. \<exists>v i. py_get p (ascii ''id'') (JInt 0) = Inr v \<and> as_int v = Some i \<and> i < m"
    by simp
  have vs: "\<forall>v \<in> set ids. \<exists>j. as_int v = Some j \<and> j < m + 5"
  proof
    fix v assume "v \<in> set ids"
    from comprehension_backward [OF ids this] obtain p where "p \<in> set ps"
      "py_get p (ascii ''id'') (JInt 0) = Inr v" by blast
    with lt obtain i where "as_int v = Some i" "i < m" by force
    then show "\<exists>j. as_int v = Some j \<and> j < m + 5" by simp
  qed
  have "py_max (ids @ [JInt m, JInt (m + 1), JInt (m + 2), JInt (m + 3), JInt (m + 4), JInt (m + 5)])
      = Inr (JInt (m + 5))"
    by (rule py_max_append [OF vs]) simp_all
  then show ?thesis
    by (simp add: first_next_id_def comprehension_append ids new_panels_ids [OF built])
qed

lemma grid_bottom_Inr:
  assumes "grid_bottom p = Inr b"
  shows "\<exists>g y h. py_get p (ascii ''gridPos'') (JObj []) = Inr g
      \<and> py_get g (ascii ''y'') (JInt 0) = Inr y \<and> py_get g (ascii ''h'') (JInt 0) = Inr h
      \<and> py_add y h = Inr b"
  using assms by (auto simp: grid_bottom_def split: sum.splits)

text \<open>When no grid position is a float, \<^verbatim>\<open>next_y\<close> is an integer, the largest bottom
  edge.\<close>

lemma first_next_y_ints:
  assumes n: "first_next_y ps = Inr next_y"
    and nf: "\<forall>p \<in> set ps. \<forall>g v. py_get p (ascii ''gridPos'') (JObj []) = Inr g
        \<and> (py_get g (ascii ''y'') (JInt 0) = Inr v \<or> py_get g (ascii ''h'') (JInt 0) = Inr v)
        \<longrightarrow> \<not> is_float v"
  shows "\<exists>y bs. next_y = JInt y \<and> comprehension grid_bottom ps = Inr bs
      \<and> (\<forall>b \<in> set bs. \<exists>j. b = JInt j \<and> j \<le> y)"
proof -
  from n obtain bs where bs: "comprehension grid_bottom ps = Inr bs"
    and mx: "py_max bs = Inr next_y"
    by (auto simp: first_next_y_def split: sum.splits)
  have ints: "\<forall>b \<in> set bs. \<exists>j. b = JInt j"
  proof
    fix b assume b: "b \<in> set bs"
    from comprehension_backward [OF bs b] obtain p where p: "p \<in> set ps" "grid_bottom p = Inr b"
      by blast
    from grid_bottom_Inr [OF p(2)] obtain g y h where
      g: "py_get p (ascii ''gridPos'') (JObj []) = Inr g"
        "py_get g (ascii ''y'') (JInt 0) = Inr y" "py_get g (ascii ''h'') (JInt 0) = Inr h"
        "py_add y h = Inr b" by blast
    from nf p(1) g(1,2) have y: "\<not> is_float y" by blast
    from nf p(1) g(1,3) have h: "\<not> is_float h" by blast
    from py_add_number [OF g(4) py_max_numbers [OF mx b] y h] show "\<exists>j. b = JInt j" .
  qed
  then have "\<forall>b \<in> set bs. as_int b \<noteq> None" by auto
  from py_max_ints [OF this] mx obtain k where k: "as_int next_y = Some k"
    and b: "\<forall>v \<in> set bs. \<forall>j. as_int v = Some j \<longrightarrow> j \<le> k"
    and e: "bs = [] \<longrightarrow> next_y = JInt 0" and ne: "bs \<noteq> [] \<longrightarrow> next_y \<in> set bs"
    by auto
  from e ne ints k have y: "next_y = JInt k" by (cases "bs = []") auto
  have "\<forall>b \<in> set bs. \<exists>j. b = JInt j \<and> j \<le> k" using ints b by fastforce
  with y bs show ?thesis by blast
qed

lemma first_next_y_again:
  assumes n: "first_next_y ps = Inr (JInt y)"
    and nf: "\<forall>p \<in> set ps. \<forall>g v. py_get p (ascii ''gridPos'') (JObj []) = Inr g
        \<and> (py_get g (ascii ''y'') (JInt 0) = Inr v \<or> py_get g (ascii ''h'') (JInt 0) = Inr v)
        \<longrightarrow> \<not> is_float v"
    and built: "new_panels (JInt m) (JInt y) = Inr built"
  shows "first_next_y (ps @ built) = Inr (JInt (y + 25))"
proof -
  from first_next_y_ints [OF n nf] obtain bs where bs: "comprehension grid_bottom ps = Inr bs"
    and le: "\<forall>b \<in> set bs. \<exists>j. b = JInt j \<and> j \<le> y" by auto
  have vs: "\<forall>v \<in> set bs. \<exists>j. as_int v = Some j \<and> j < y + 25"
  proof
    fix v assume "v \<in> set bs"
    with le obtain j where "v = JInt j" "j \<le> y" by blast
    then show "\<exists>j. as_int v = Some j \<and> j < y + 25" by simp
  qed
  have "py_max (bs @ [JInt (y + 1), JInt (y + 9), JInt (y + 9), JInt (y + 17), JInt (y + 17),
      JInt (y + 25)]) = Inr (JInt (y + 25))"
    by (rule py_max_append [OF vs]) simp_all
  then show ?thesis
    by (simp add: first_next_y_def comprehension_append bs new_panels_bottoms [OF built])
qed

lemma map_of_replace:
  "map_of (map (\<lambda>(ka, w). if ka = k then (ka, v) else (ka, w)) kvs) k' =
     (if k' = k \<and> k \<in> fst ` set kvs then Some v else map_of kvs k')"
proof (induction kvs)
  case Nil
  show ?case by simp
next
  case (Cons kv kvs)
  obtain a b where kv: "kv = (a, b)" by (cases kv)
  show ?case
    using Cons.IH unfolding kv
    by (cases "a = k"; cases "k' = k"; cases "k' = a"; simp)
qed

lemma map_of_py_setitem:
  "map_of (py_setitem kvs k v) k' = (if k' = k then Some v else map_of kvs k')"
proof (cases "k \<in> fst ` set kvs")
  case True
  then show ?thesis
    by (simp add: py_setitem_def map_of_replace)
next
  case False
  then have "map_of kvs k = None" by (simp add: map_of_eq_None_iff)
  with False show ?thesis
    by (auto simp: py_setitem_def map_add_def split: option.splits)
qed

lemma key_names_differ:
  "ascii ''panels'' \<noteq> ascii ''version''" "ascii ''panels'' \<noteq> ascii ''refresh''"
  "ascii ''version'' \<noteq> ascii ''refresh''" "ascii ''version'' \<noteq> ascii ''panels''"
  "ascii ''refresh'' \<noteq> ascii ''panels''" "ascii ''refresh'' \<noteq> ascii ''version''"
  by (simp_all add: ascii_inj)

lemma add_query_performance_panels_Inr:
  assumes "add_query_performance_panels d = Inr d1"
  shows "\<exists>kvs panels next_id next_y built version.
      d = JObj kvs \<and> map_of kvs (ascii ''panels'') = Some (JArr panels)
      \<and> first_next_id panels = Inr next_id \<and> first_next_y panels = Inr next_y
      \<and> new_panels next_id next_y = Inr built
      \<and> py_add (case map_of kvs (ascii ''version'') of None \<Rightarrow> JInt 0 | Some v \<Rightarrow> v) (JInt 1)
          = Inr version
      \<and> d1 = JObj (py_setitem (py_setitem
                (py_setitem kvs (ascii ''panels'') (JArr (panels @ built)))
                (ascii ''version'') version) (ascii ''refresh'') (jstr ''30s''))"
proof -
  from assms obtain kvs where d: "d = JObj kvs"
    by (cases d) (auto simp: add_query_performance_panels_def split: sum.splits)
  from assms d obtain v0 where v0: "map_of kvs (ascii ''panels'') = Some v0"
    by (cases "map_of kvs (ascii ''panels'')")
      (auto simp: add_query_performance_panels_def py_getitem_def split: sum.splits)
  from assms d v0 obtain panels where p: "v0 = JArr panels"
    by (cases v0)
      (auto simp: add_query_performance_panels_def py_getitem_def split: sum.splits)
  from assms d v0 p obtain m where m: "first_next_id panels = Inr m"
    by (cases "first_next_id panels") (auto simp: add_query_performance_panels_def)
  from assms d v0 p m obtain y where y: "first_next_y panels = Inr y"
    by (cases "first_next_y panels") (auto simp: add_query_performance_panels_def)
  from assms d v0 p m y obtain built where b: "new_panels m y = Inr built"
    by (cases "new_panels m y") (auto simp: add_query_performance_panels_def)
  let ?v = "case map_of kvs (ascii ''version'') of None \<Rightarrow> JInt 0 | Some v \<Rightarrow> v"
  from assms d v0 p m y b obtain w where w: "py_add ?v (JInt 1) = Inr w"
    and d1: "d1 = JObj (py_setitem (py_setitem
                (py_setitem kvs (ascii ''panels'') (JArr (panels @ built)))
                (ascii ''version'') w) (ascii ''refresh'') (jstr ''30s''))"
    by (cases "py_add ?v (JInt 1)")
      (auto simp: add_query_performance_panels_def py_getitem_def map_of_py_setitem
        key_names_differ Let_def split: option.splits)
  with d v0 p m y b show ?thesis by blast
qed

lemma add_query_performance_panels_run:
  assumes "map_of kvs (ascii ''panels'') = Some (JArr panels)"
    and "first_next_id panels = Inr next_id" and "first_next_y panels = Inr next_y"
    and "new_panels next_id next_y = Inr built"
    and "py_add (case map_of kvs (ascii ''version'') of None \<Rightarrow> JInt 0 | Some v \<Rightarrow> v) (JInt 1)
          = Inr version"
  shows "add_query_performance_panels (JObj kvs) =
     Inr (JObj (py_setitem (py_setitem
                (py_setitem kvs (ascii ''panels'') (JArr (panels @ built)))
                (ascii ''version'') version) (ascii ''refresh'') (jstr ''30s'')))"
  using assms
  by (auto simp: add_query_performance_panels_def py_getitem_def map_of_py_setitem
      key_names_differ Let_def split: option.splits)

lemma run_again_appends:
  assumes p: "map_of kvs (ascii ''panels'') = Some (JArr panels)"
    and m: "first_next_id panels = Inr (JInt m)" and y: "first_next_y panels = Inr (JInt y)"
    and ids: "\<forall>p \<in> set panels. \<forall>v. py_get p (ascii ''id'') (JInt 0) = Inr v \<longrightarrow> \<not> is_float v"
    and grid: "\<forall>p \<in> set panels. \<forall>g v. py_get p (ascii ''gridPos'') (JObj []) = Inr g
        \<and> (py_get g (ascii ''y'') (JInt 0) = Inr v \<or> py_get g (ascii ''h'') (JInt 0) = Inr v)
        \<longrightarrow> \<not> is_float v"
    and ver: "as_int (case map_of kvs (ascii ''version'') of None \<Rightarrow> JInt 0 | Some v \<Rightarrow> v) = Some ver"
  shows "\<exists>d1 d2 built built2.
        new_panels (JInt m) (JInt y) = Inr built
      \<and> new_panels (JInt (m + 6)) (JInt (y + 25)) = Inr built2
      \<and> add_query_performance_panels (JObj kvs) = Inr d1
      \<and> py_get d1 (ascii ''panels'') JNull = Inr (JArr (panels @ built))
      \<and> py_get d1 (ascii ''version'') (JInt 0) = Inr (JInt (ver + 1))
      \<and> run_again add_query_performance_panels (JObj kvs) = Inr d2 \<and> d2 \<noteq> d1
      \<and> py_get d2 (ascii ''panels'') JNull = Inr (JArr (panels @ built @ built2))
      \<and> py_get d2 (ascii ''version'') (JInt 0) = Inr (JInt (ver + 2))"
proof -
  obtain built where b1: "new_panels (JInt m) (JInt y) = Inr built"
    by (simp add: new_panels_ints)
  obtain built2 where b2: "new_panels (JInt (m + 6)) (JInt (y + 25)) = Inr built2"
    by (simp add: new_panels_ints)
  let ?kvs1 = "py_setitem (py_setitem
                (py_setitem kvs (ascii ''panels'') (JArr (panels @ built)))
                (ascii ''version'') (JInt (ver + 1))) (ascii ''refresh'') (jstr ''30s'')"
  let ?kvs2 = "py_setitem (py_setitem
                (py_setitem ?kvs1 (ascii ''panels'') (JArr ((panels @ built) @ built2)))
                (ascii ''version'') (JInt (ver + 1 + 1))) (ascii ''refresh'') (jstr ''30s'')"
  have r1: "add_query_performance_panels (JObj kvs) = Inr (JObj ?kvs1)"
    by (rule add_query_performance_panels_run [OF p m y b1 py_add_one_number [OF ver]])
  have p1: "map_of ?kvs1 (ascii ''panels'') = Some (JArr (panels @ built))"
    by (simp add: map_of_py_setitem key_names_differ)
  have v1: "map_of ?kvs1 (ascii ''version'') = Some (JInt (ver + 1))"
    by (simp add: map_of_py_setitem key_names_differ)
  then have v1': "as_int (case map_of ?kvs1 (ascii ''version'') of None \<Rightarrow> JInt 0 | Some v \<Rightarrow> v)
      = Some (ver + 1)" by simp
  have r2: "add_query_performance_panels (JObj ?kvs1) = Inr (JObj ?kvs2)"
    by (rule add_query_performance_panels_run
        [OF p1 first_next_id_again [OF m ids b1] first_next_y_again [OF y grid b1] b2
          py_add_one_number [OF v1']])
  have p2: "map_of ?kvs2 (ascii ''panels'') = Some (JArr ((panels @ built) @ built2))"
    by (simp add: map_of_py_setitem key_names_differ)
  have v2: "map_of ?kvs2 (ascii ''version'') = Some (JInt (ver + 1 + 1))"
    by (simp add: map_of_py_setitem key_names_differ)
  have "length built2 = 6" by (rule new_panels_length [OF b2])
  then have "(panels @ built) @ built2 \<noteq> panels @ built" by auto
  with p1 p2 have ne: "JObj ?kvs2 \<noteq> JObj ?kvs1" by auto
  have ra: "run_again add_query_performance_panels (JObj kvs) = Inr (JObj ?kvs2)"
    by (simp add: run_again_def r1 r2)
  show ?thesis
    using b1 b2 r1 ra ne p1 v1 p2 v2
    by (intro exI [of _ "JObj ?kvs1"] exI [of _ "JObj ?kvs2"] exI [of _ built] exI [of _ built2])
      simp
qed

lemma templating_keys_differ:
  "ascii ''version'' \<noteq> ascii ''templating''" "ascii ''version'' \<noteq> ascii ''title''"
  "ascii ''version'' \<noteq> ascii ''description''" "ascii ''templating'' \<noteq> ascii ''version''"
  "ascii ''templating'' \<noteq> ascii ''title''" "ascii ''templating'' \<noteq> ascii ''description''"
  "ascii ''templating'' \<noteq> ascii ''panels''"
  by (simp_all add: ascii_inj)

lemma add_grafana_templating_Inr:
  assumes "add_grafana_templating d = Inr d1"
  shows "\<exists>v w. py_get d (ascii ''version'') (JInt 0) = Inr v \<and> py_add v (JInt 1) = Inr w
      \<and> py_get d1 (ascii ''version'') (JInt 0) = Inr w
      \<and> py_get d1 (ascii ''templating'') JNull = Inr templating"
proof -
  from assms obtain kvs where d: "d = JObj kvs"
    by (cases d) (simp_all add: add_grafana_templating_def)
  let ?kvs1 = "py_setitem kvs (ascii ''templating'') templating"
  let ?ps = "case map_of ?kvs1 (ascii ''panels'') of None \<Rightarrow> JArr [] | Some ps \<Rightarrow> ps"
  from assms d obtain panels' where ps: "for_each rewrite_panel ?ps = Inr panels'"
    by (cases "for_each rewrite_panel ?ps") (simp_all add: add_grafana_templating_def Let_def)
  let ?kvs2 = "if map_of ?kvs1 (ascii ''panels'') = None then ?kvs1
               else py_setitem ?kvs1 (ascii ''panels'') panels'"
  let ?kvs4 = "py_setitem (py_setitem ?kvs2 (ascii ''title'')
                 (jstr ''Solr Monitoring (Multi-Instance)'')) (ascii ''description'')
                 (jstr ''Solr performance monitoring dashboard with support for multiple instances. Use template variables to filter by instance, job, and core.'')"
  have v4: "map_of ?kvs4 (ascii ''version'') = map_of kvs (ascii ''version'')"
    by (simp add: map_of_py_setitem templating_keys_differ key_names_differ)
  have t4: "map_of ?kvs4 (ascii ''templating'') = Some templating"
    by (simp add: map_of_py_setitem templating_keys_differ key_names_differ)
  let ?v = "case map_of kvs (ascii ''version'') of None \<Rightarrow> JInt 0 | Some v \<Rightarrow> v"
  have eq: "add_grafana_templating d =
      (case (case map_of ?kvs4 (ascii ''version'') of None \<Rightarrow> Inr (JInt 0) | Some v \<Rightarrow> Inr v) of
         Inl e \<Rightarrow> Inl e
       | Inr v \<Rightarrow>
           (case py_add v (JInt 1) of
              Inl e \<Rightarrow> Inl e
            | Inr version \<Rightarrow> Inr (JObj (py_setitem ?kvs4 (ascii ''version'') version))))"
    unfolding d add_grafana_templating_def Let_def
    by (simp only: json.case ps sum.case py_get.simps)
  have "(case map_of ?kvs4 (ascii ''version'') of None \<Rightarrow> Inr (JInt 0) | Some v \<Rightarrow> Inr v)
      = (Inr ?v :: error + json)"
    unfolding v4 by (simp split: option.splits)
  with eq assms have r: "(case py_add ?v (JInt 1) of
              Inl e \<Rightarrow> Inl e
            | Inr version \<Rightarrow> Inr (JObj (py_setitem ?kvs4 (ascii ''version'') version))) = Inr d1"
    by (simp only: sum.case)
  obtain w where w: "py_add ?v (JInt 1) = Inr w"
    and d1: "d1 = JObj (py_setitem ?kvs4 (ascii ''version'') w)"
  proof (cases "py_add ?v (JInt 1)")
    case (Inl e)
    with r show ?thesis by (simp only: sum.case sum.distinct)
  next
    case (Inr w)
    with r have "d1 = JObj (py_setitem ?kvs4 (ascii ''version'') w)"
      by (simp only: sum.case sum.inject)
    with Inr that show ?thesis by blast
  qed
  have "py_get d (ascii ''version'') (JInt 0) = Inr ?v"
    by (simp add: d split: option.splits)
  moreover have "py_get d1 (ascii ''version'') (JInt 0) = Inr w"
    by (simp add: d1 map_of_py_setitem)
  moreover have "py_get d1 (ascii ''templating'') JNull = Inr templating"
  proof -
    have "map_of (py_setitem ?kvs4 (ascii ''version'') w) (ascii ''templating'') = Some templating"
      by (simp only: map_of_py_setitem [of ?kvs4] t4 templating_keys_differ if_False)
    then show ?thesis by (simp only: d1 py_get.simps option.case)
  qed
  ultimately show ?thesis using w by blast
qed

lemma add_grafana_templating_again:
  assumes "add_grafana_templating d = Inr d1"
    and "\<forall>v. py_get d (ascii ''version'') (JInt 0) = Inr v \<longrightarrow> \<not> is_float v"
  shows "\<exists>v ver. py_get d (ascii ''version'') (JInt 0) = Inr v \<and> as_int v = Some ver
      \<and> py_get d1 (ascii ''version'') (JInt 0) = Inr (JInt (ver + 1))
      \<and> py_get d1 (ascii ''templating'') JNull = Inr templating
      \<and> run_again add_grafana_templating d \<noteq> Inr d1"
proof -
  from add_grafana_templating_Inr [OF assms(1)] obtain v w where
    v: "py_get d (ascii ''version'') (JInt 0) = Inr v" and w: "py_add v (JInt 1) = Inr w"
    and w1: "py_get d1 (ascii ''version'') (JInt 0) = Inr w"
    and t: "py_get d1 (ascii ''templating'') JNull = Inr templating" by blast
  from v assms(2) have "\<not> is_float v" by blast
  from py_add_one [OF w this] obtain ver where ver: "as_int v = Some ver" "w = JInt (ver + 1)"
    by blast
  have "run_again add_grafana_templating d \<noteq> Inr d1"
  proof
    assume "run_again add_grafana_templating d = Inr d1"
    with assms(1) have 2: "add_grafana_templating d1 = Inr d1" by (simp add: run_again_def)
    from add_grafana_templating_Inr [OF 2] w1 ver(2) obtain w' where
      "py_add (JInt (ver + 1)) (JInt 1) = Inr w'" "Inr (JInt (ver + 1)) = (Inr w' :: error + json)"
      by auto
    then show False by auto
  qed
  with v ver w1 t show ?thesis by blast
qed

lemma small_dashboard_ints:
  "\<forall>panels. py_get small_dashboard (ascii ''panels'') JNull = Inr (JArr panels) \<longrightarrow>
      (\<forall>p \<in> set panels. \<forall>g v.
          (py_get p (ascii ''id'') (JInt 0) = Inr v
           \<or> py_get p (ascii ''gridPos'') (JObj []) = Inr g
             \<and> (py_get g (ascii ''y'') (JInt 0) = Inr v \<or> py_get g (ascii ''h'') (JInt 0) = Inr v))
          \<longrightarrow> \<not> is_float v)"
  "\<forall>v. py_get small_dashboard (ascii ''version'') (JInt 0) = Inr v \<longrightarrow> \<not> is_float v"
  by (auto simp: small_dashboard_def small_panel_def py_get_jobj)

lemma small_dashboard_panels_run:
  "\<exists>d1 d2. add_query_performance_panels small_dashboard = Inr d1
     \<and> run_again add_query_performance_panels small_dashboard = Inr d2 \<and> d2 \<noteq> d1"
proof -
  let ?kvs = "map (\<lambda>(k, v). (ascii k, v))
      [(''title'', jstr ''Solr Monitoring''), (''panels'', JArr [small_panel]), (''version'', JInt 1)]"
  have d: "small_dashboard = JObj ?kvs" by (simp add: small_dashboard_def jobj_def)
  have p: "map_of ?kvs (ascii ''panels'') = Some (JArr [small_panel])"
    by (simp only: map_of_ascii_keys) simp
  have i: "first_next_id [small_panel] = Inr (JInt 4)"
    by (simp add: first_next_id_def small_panel_def py_get_jobj py_max_def is_number_def)
  have y: "first_next_y [small_panel] = Inr (JInt 8)"
    by (simp add: first_next_y_def small_panel_def grid_bottom_def py_get_jobj py_max_def
        is_number_def)
  have v: "as_int (case map_of ?kvs (ascii ''version'') of None \<Rightarrow> JInt 0 | Some v \<Rightarrow> v) = Some 1"
    by (simp only: map_of_ascii_keys) simp
  have ids: "\<forall>p \<in> set [small_panel]. \<forall>v. py_get p (ascii ''id'') (JInt 0) = Inr v \<longrightarrow> \<not> is_float v"
    by (auto simp: small_panel_def py_get_jobj)
  have grid: "\<forall>p \<in> set [small_panel]. \<forall>g v. py_get p (ascii ''gridPos'') (JObj []) = Inr g
        \<and> (py_get g (ascii ''y'') (JInt 0) = Inr v \<or> py_get g (ascii ''h'') (JInt 0) = Inr v)
        \<longrightarrow> \<not> is_float v"
    by (auto simp: small_panel_def py_get_jobj)
  from run_again_appends [OF p i y ids grid v] show ?thesis
    unfolding d by blast
qed

lemma small_dashboard_templating_run:
  "\<exists>d1. add_grafana_templating small_dashboard = Inr d1"
  by (simp add: small_dashboard_def small_panel_def add_grafana_templating_def jobj_def for_each_def
      rewrite_panel_def rewrite_target_def rewrite_job_def rewrite_core_def py_getitem_def
      py_setitem_def str_replace_def jstr_def ascii_def Let_def)

text \<open>The query of the small dashboard after the templating script.\<close>

lemma rewrite_target_example:
  \<open>rewrite_target
     (jobj [(''expr'', jstr ''rate(solr_metrics_core_query_requests_total{job="solr-exporter"}[5m])'')])
   = Inr (jobj [(''expr'', jstr ''rate(solr_metrics_core_query_requests_total{job="$job",instance=~"$instance",core=~"$core"}[5m])'')])\<close>
  by (simp add: rewrite_target_def rewrite_job_def rewrite_core_def py_getitem_def
      py_setitem_def str_replace_def jstr_def jobj_def ascii_def)

text \<open>
  A version that is a float can absorb the increment. The dashboard whose version is
  \<^verbatim>\<open>1e16\<close> is a fixed point of the second run of the templating script: the run on
  the output of the first run writes the same document again.
\<close>

lemma float_version_second_run:
  "\<not> isl (add_grafana_templating float_dashboard)
   \<and> run_again add_grafana_templating float_dashboard = add_grafana_templating float_dashboard"
proof -
  let ?d1 = "JObj [(ascii ''title'', jstr ''Solr Monitoring (Multi-Instance)''),
      (ascii ''panels'', JArr []), (ascii ''version'', JFloat 0x4341C37937E08000),
      (ascii ''templating'', templating),
      (ascii ''description'', jstr ''Solr performance monitoring dashboard with support for multiple instances. Use template variables to filter by instance, job, and core.'')]"
  have k: "ascii ''title'' \<noteq> ascii ''templating''" "ascii ''panels'' \<noteq> ascii ''templating''"
    "ascii ''version'' \<noteq> ascii ''templating''" "ascii ''title'' \<noteq> ascii ''panels''"
    "ascii ''title'' \<noteq> ascii ''version''" "ascii ''title'' \<noteq> ascii ''description''"
    "ascii ''panels'' \<noteq> ascii ''title''" "ascii ''panels'' \<noteq> ascii ''version''"
    "ascii ''panels'' \<noteq> ascii ''description''" "ascii ''version'' \<noteq> ascii ''title''"
    "ascii ''version'' \<noteq> ascii ''panels''" "ascii ''version'' \<noteq> ascii ''description''"
    "ascii ''templating'' \<noteq> ascii ''title''" "ascii ''templating'' \<noteq> ascii ''panels''"
    "ascii ''templating'' \<noteq> ascii ''version''" "ascii ''templating'' \<noteq> ascii ''description''"
    "ascii ''description'' \<noteq> ascii ''title''" "ascii ''description'' \<noteq> ascii ''panels''"
    "ascii ''description'' \<noteq> ascii ''version''" "ascii ''description'' \<noteq> ascii ''templating''"
    by (simp_all add: ascii_inj)
  have 1: "add_grafana_templating float_dashboard = Inr ?d1"
    by (simp add: float_dashboard_def add_grafana_templating_def jobj_def for_each_def
        py_setitem_def Let_def k float_of_int_one float_add_one_absorbed)
  have 2: "add_grafana_templating ?d1 = Inr ?d1"
    by (simp add: add_grafana_templating_def for_each_def
        py_setitem_def Let_def k float_of_int_one float_add_one_absorbed)
  from 1 2 show ?thesis by (simp add: run_again_def)
qed

text \<open>
  Claim C8, amended. The scripts are not idempotent: each run changes the dashboard.
  The amended claim is about dashboards whose panel identifiers, grid positions
  (\<^verbatim>\<open>y\<close> and \<^verbatim>\<open>h\<close>) and version are not floats. On such a dashboard a run of
  \<^verbatim>\<open>add_query_performance_panels\<close> that succeeds appends six panels to the list of
  panels; their identifiers are \<open>m, \<dots>, m + 5\<close>, where \<open>m\<close> is one greater than the
  largest identifier of an existing panel (1 when there is none); and it adds one to the
  version. Running it again on its own output succeeds, gives a different dashboard, and
  appends six more panels, with identifiers from \<open>m + 6\<close>. A run of the templating script
  that succeeds installs the template variables and adds one to the version, so that a
  second run on its output never gives the same dashboard again. A float is excluded
  because it can absorb the increment, as \<open>float_version_second_run\<close> shows.
\<close>

theorem dashboard_scripts_change_every_run:
  assumes ints: "\<forall>panels. py_get d (ascii ''panels'') JNull = Inr (JArr panels) \<longrightarrow>
      (\<forall>p \<in> set panels. \<forall>g v.
          (py_get p (ascii ''id'') (JInt 0) = Inr v
           \<or> py_get p (ascii ''gridPos'') (JObj []) = Inr g
             \<and> (py_get g (ascii ''y'') (JInt 0) = Inr v \<or> py_get g (ascii ''h'') (JInt 0) = Inr v))
          \<longrightarrow> \<not> is_float v)"
    and version: "\<forall>v. py_get d (ascii ''version'') (JInt 0) = Inr v \<longrightarrow> \<not> is_float v"
  shows "(\<forall>d1. add_query_performance_panels d = Inr d1 \<longrightarrow>
      (\<exists>panels m y v ver built built2.
          py_get d (ascii ''panels'') JNull = Inr (JArr panels)
        \<and> first_next_id panels = Inr (JInt m) \<and> first_next_y panels = Inr (JInt y)
        \<and> (\<forall>p \<in> set panels. \<exists>v i. py_get p (ascii ''id'') (JInt 0) = Inr v \<and> as_int v = Some i
               \<and> i < m)
        \<and> (panels = [] \<longrightarrow> m = 1)
        \<and> (panels \<noteq> [] \<longrightarrow> (\<exists>p \<in> set panels. \<exists>v.
               py_get p (ascii ''id'') (JInt 0) = Inr v \<and> as_int v = Some (m - 1)))
        \<and> new_panels (JInt m) (JInt y) = Inr built
        \<and> py_get d1 (ascii ''panels'') JNull = Inr (JArr (panels @ built))
        \<and> comprehension (\<lambda>p. py_get p (ascii ''id'') (JInt 0)) built
             = Inr [JInt m, JInt (m + 1), JInt (m + 2), JInt (m + 3), JInt (m + 4), JInt (m + 5)]
        \<and> py_get d (ascii ''version'') (JInt 0) = Inr v \<and> as_int v = Some ver
        \<and> py_get d1 (ascii ''version'') (JInt 0) = Inr (JInt (ver + 1))
        \<and> new_panels (JInt (m + 6)) (JInt (y + 25)) = Inr built2
        \<and> (\<exists>d2. run_again add_query_performance_panels d = Inr d2 \<and> d2 \<noteq> d1
              \<and> py_get d2 (ascii ''panels'') JNull = Inr (JArr (panels @ built @ built2))
              \<and> py_get d2 (ascii ''version'') (JInt 0) = Inr (JInt (ver + 2)))))
   \<and> (\<forall>d1. add_grafana_templating d = Inr d1 \<longrightarrow>
      (\<exists>v ver.
          py_get d (ascii ''version'') (JInt 0) = Inr v \<and> as_int v = Some ver
        \<and> py_get d1 (ascii ''version'') (JInt 0) = Inr (JInt (ver + 1))
        \<and> py_get d1 (ascii ''templating'') JNull = Inr templating
        \<and> run_again add_grafana_templating d \<noteq> Inr d1))"
proof (intro conjI allI impI)
  fix d1
  assume a: "add_query_performance_panels d = Inr d1"
  from add_query_performance_panels_Inr [OF a] obtain kvs panels next_id next_y built0 w where
    d: "d = JObj kvs" and p: "map_of kvs (ascii ''panels'') = Some (JArr panels)"
    and n: "first_next_id panels = Inr next_id" and ny: "first_next_y panels = Inr next_y"
    and w: "py_add (case map_of kvs (ascii ''version'') of None \<Rightarrow> JInt 0 | Some v \<Rightarrow> v) (JInt 1)
          = Inr w"
    by blast
  let ?v = "case map_of kvs (ascii ''version'') of None \<Rightarrow> JInt 0 | Some v \<Rightarrow> v"
  have dp: "py_get d (ascii ''panels'') JNull = Inr (JArr panels)" by (simp add: d p)
  have dv: "py_get d (ascii ''version'') (JInt 0) = Inr ?v" by (simp add: d split: option.splits)
  from ints dp have ids: "\<forall>p \<in> set panels. \<forall>v. py_get p (ascii ''id'') (JInt 0) = Inr v
      \<longrightarrow> \<not> is_float v" by blast
  from ints dp have grid: "\<forall>p \<in> set panels. \<forall>g v. py_get p (ascii ''gridPos'') (JObj []) = Inr g
        \<and> (py_get g (ascii ''y'') (JInt 0) = Inr v \<or> py_get g (ascii ''h'') (JInt 0) = Inr v)
        \<longrightarrow> \<not> is_float v" by blast
  from version dv have "\<not> is_float ?v" by blast
  from py_add_one [OF w this] obtain ver where v: "as_int ?v = Some ver" by blast
  from first_next_id_ints [OF n ids] obtain m where m: "next_id = JInt m"
    and g: "\<forall>p \<in> set panels. \<exists>v i. py_get p (ascii ''id'') (JInt 0) = Inr v \<and> as_int v = Some i
               \<and> i < m"
       "panels = [] \<longrightarrow> m = 1"
       "panels \<noteq> [] \<longrightarrow> (\<exists>p \<in> set panels. \<exists>v.
               py_get p (ascii ''id'') (JInt 0) = Inr v \<and> as_int v = Some (m - 1))"
    by blast
  from first_next_y_ints [OF ny grid] obtain y where y: "next_y = JInt y" by blast
  note n' = n [unfolded m] and ny' = ny [unfolded y]
  from run_again_appends [OF p n' ny' ids grid v] a d obtain d2 built built2 where
    r: "new_panels (JInt m) (JInt y) = Inr built"
      "new_panels (JInt (m + 6)) (JInt (y + 25)) = Inr built2"
      "py_get d1 (ascii ''panels'') JNull = Inr (JArr (panels @ built))"
      "py_get d1 (ascii ''version'') (JInt 0) = Inr (JInt (ver + 1))"
      "run_again add_query_performance_panels d = Inr d2" "d2 \<noteq> d1"
      "py_get d2 (ascii ''panels'') JNull = Inr (JArr (panels @ built @ built2))"
      "py_get d2 (ascii ''version'') (JInt 0) = Inr (JInt (ver + 2))"
    by auto
  show "\<exists>panels m y v ver built built2.
          py_get d (ascii ''panels'') JNull = Inr (JArr panels)
        \<and> first_next_id panels = Inr (JInt m) \<and> first_next_y panels = Inr (JInt y)
        \<and> (\<forall>p \<in> set panels. \<exists>v i. py_get p (ascii ''id'') (JInt 0) = Inr v \<and> as_int v = Some i
               \<and> i < m)
        \<and> (panels = [] \<longrightarrow> m = 1)
        \<and> (panels \<noteq> [] \<longrightarrow> (\<exists>p \<in> set panels. \<exists>v.
               py_get p (ascii ''id'') (JInt 0) = Inr v \<and> as_int v = Some (m - 1)))
        \<and> new_panels (JInt m) (JInt y) = Inr built
        \<and> py_get d1 (ascii ''panels'') JNull = Inr (JArr (panels @ built))
        \<and> comprehension (\<lambda>p. py_get p (ascii ''id'') (JInt 0)) built
             = Inr [JInt m, JInt (m + 1), JInt (m + 2), JInt (m + 3), JInt (m + 4), JInt (m + 5)]
        \<and> py_get d (ascii ''version'') (JInt 0) = Inr v \<and> as_int v = Some ver
        \<and> py_get d1 (ascii ''version'') (JInt 0) = Inr (JInt (ver + 1))
        \<and> new_panels (JInt (m + 6)) (JInt (y + 25)) = Inr built2
        \<and> (\<exists>d2. run_again add_query_performance_panels d = Inr d2 \<and> d2 \<noteq> d1
              \<and> py_get d2 (ascii ''panels'') JNull = Inr (JArr (panels @ built @ built2))
              \<and> py_get d2 (ascii ''version'') (JInt 0) = Inr (JInt (ver + 2)))"
    apply (rule exI [of _ panels], rule exI [of _ m], rule exI [of _ y], rule exI [of _ ?v],
        rule exI [of _ ver], rule exI [of _ built], rule exI [of _ built2])
    using dp n' ny' g r dv v new_panels_ids [OF r(1)] by blast
next
  fix d1
  assume a: "add_grafana_templating d = Inr d1"
  from add_grafana_templating_again [OF a version]
  show "\<exists>v ver.
          py_get d (ascii ''version'') (JInt 0) = Inr v \<and> as_int v = Some ver
        \<and> py_get d1 (ascii ''version'') (JInt 0) = Inr (JInt (ver + 1))
        \<and> py_get d1 (ascii ''templating'') JNull = Inr templating
        \<and> run_again add_grafana_templating d \<noteq> Inr d1" .
qed

text \<open>Both scripts run on the dashboard with one panel, whose numbers are integers.\<close>

theorem dashboard_scripts_change_every_run_witness:
  "(\<exists>d1. add_query_performance_panels small_dashboard = Inr d1)
   \<and> (\<exists>d1. add_grafana_templating small_dashboard = Inr d1)
   \<and> (\<exists>d2. run_again add_query_performance_panels small_dashboard = Inr d2
         \<and> py_get d2 (ascii ''version'') (JInt 0) = Inr (JInt 3))"
proof -
  from small_dashboard_panels_run obtain d1 where
    d1: "add_query_performance_panels small_dashboard = Inr d1" by blast
  have v: "py_get small_dashboard (ascii ''version'') (JInt 0) = Inr (JInt 1)"
    by (simp add: small_dashboard_def py_get_jobj)
  from dashboard_scripts_change_every_run [OF small_dashboard_ints] d1 obtain v' ver d2 where
    "py_get small_dashboard (ascii ''version'') (JInt 0) = Inr v'" "as_int v' = Some ver"
    "run_again add_query_performance_panels small_dashboard = Inr d2"
    "py_get d2 (ascii ''version'') (JInt 0) = Inr (JInt (ver + 2))"
    by blast
  with v have "run_again add_query_performance_panels small_dashboard = Inr d2
       \<and> py_get d2 (ascii ''version'') (JInt 0) = Inr (JInt 3)" by auto
  with d1 small_dashboard_templating_run show ?thesis by blast
qed

text \<open>
  Claim C8 as stated fails on the dashboard with one panel: both scripts succeed on it,
  and for both the second run on the output of the first differs from the first.
\<close>

theorem dashboard_second_run_counterexample:
  "\<not> isl (add_query_performance_panels small_dashboard)
   \<and> run_again add_query_performance_panels small_dashboard
       \<noteq> add_query_performance_panels small_dashboard
   \<and> \<not> isl (add_grafana_templating small_dashboard)
   \<and> run_again add_grafana_templating small_dashboard
       \<noteq> add_grafana_templating small_dashboard"
proof -
  from small_dashboard_panels_run obtain d1 d2 where
    d1: "add_query_performance_panels small_dashboard = Inr d1"
    and d2: "run_again add_query_performance_panels small_dashboard = Inr d2" "d2 \<noteq> d1"
    by blast
  then have 1: "run_again add_query_performance_panels small_dashboard
       \<noteq> add_query_performance_panels small_dashboard" by simp
  from small_dashboard_templating_run obtain t1 where
    t1: "add_grafana_templating small_dashboard = Inr t1" by blast
  from add_grafana_templating_again [OF t1 small_dashboard_ints(2)] t1
  have 2: "run_again add_grafana_templating small_dashboard
       \<noteq> add_grafana_templating small_dashboard" by auto
  from d1 t1 1 2 show ?thesis by simp
qed

end
